theory Spec2Isabelle
  imports Complex_Main "HOL-Library.Char_ord" "HOL-Library.List_Lexorder"
begin

section \<open>Python values and builtins used by the scanner\<close>

text \<open>
  The scanner of \<^verbatim>\<open>server.py\<close> (class \<^verbatim>\<open>RealtimeScanner\<close>) works on what
  \<^verbatim>\<open>json.loads\<close> returns. A value of type \<open>json\<close> is such a Python object:
  \<open>JNull\<close> is \<^verbatim>\<open>None\<close>, \<open>JObj\<close> a \<^verbatim>\<open>dict\<close> with string keys (an association
  list, looked up with \<open>map_of\<close>), \<open>JArr\<close> a \<^verbatim>\<open>list\<close>. A Python \<^verbatim>\<open>str\<close> is a
  \<open>string\<close>, one \<open>char\<close> standing for one code point (code points above 255 are
  outside the model). A \<^verbatim>\<open>float\<close> is modelled by a real number; the values
  \<^verbatim>\<open>NaN\<close> and \<^verbatim>\<open>Infinity\<close> are outside the model.
\<close>

datatype json =
    JNull
  | JBool bool
  | JInt int
  | JFloat real
  | JStr string
  | JArr "json list"
  | JObj "(string \<times> json) list"

datatype py_error = TypeError | OSError

text \<open>\<^verbatim>\<open>d.get(k)\<close> and \<^verbatim>\<open>d.get(k, default)\<close> on a dict.\<close>

definition dict_get :: "(string \<times> json) list \<Rightarrow> string \<Rightarrow> json" where
  "dict_get d k = (case map_of d k of None \<Rightarrow> JNull | Some v \<Rightarrow> v)"

definition dict_get_default :: "(string \<times> json) list \<Rightarrow> string \<Rightarrow> json \<Rightarrow> json" where
  "dict_get_default d k dflt = (case map_of d k of None \<Rightarrow> dflt | Some v \<Rightarrow> v)"

text \<open>Truth value of a Python object, as \<^verbatim>\<open>or\<close> and \<^verbatim>\<open>if\<close> test it.\<close>

fun truthy :: "json \<Rightarrow> bool" where
  "truthy JNull = False"
| "truthy (JBool b) = b"
| "truthy (JInt i) = (i \<noteq> 0)"
| "truthy (JFloat r) = (r \<noteq> 0)"
| "truthy (JStr s) = (s \<noteq> [])"
| "truthy (JArr xs) = (xs \<noteq> [])"
| "truthy (JObj d) = (d \<noteq> [])"

text \<open>
  \<^verbatim>\<open>str.isspace\<close> on one character, for the code points below 256, and
  \<^verbatim>\<open>str.strip()\<close>.
\<close>

definition is_space :: "char \<Rightarrow> bool" where
  "is_space c = ((of_char c :: nat) \<in> {9, 10, 11, 12, 13, 28, 29, 30, 31, 32, 133, 160})"

definition py_strip :: "string \<Rightarrow> string" where
  "py_strip s = rev (dropWhile is_space (rev (dropWhile is_space s)))"

definition py_startswith :: "string \<Rightarrow> string \<Rightarrow> bool" where
  "py_startswith s p = (take (length p) s = p)"

definition py_endswith :: "string \<Rightarrow> string \<Rightarrow> bool" where
  "py_endswith s p = (length p \<le> length s \<and> drop (length s - length p) s = p)"

text \<open>\<^verbatim>\<open>s.split(sep)\<close> for a separator of one character, and \<^verbatim>\<open>sep.join(parts)\<close>.\<close>

fun py_split :: "char \<Rightarrow> string \<Rightarrow> string list" where
  "py_split sep [] = [[]]"
| "py_split sep (c # cs) =
     (if c = sep then [] # py_split sep cs
      else (case py_split sep cs of
              [] \<Rightarrow> [[c]]
            | p # ps \<Rightarrow> (c # p) # ps))"

fun py_join :: "string \<Rightarrow> string list \<Rightarrow> string" where
  "py_join sep [] = []"
| "py_join sep [p] = p"
| "py_join sep (p # q # ps) = p @ sep @ py_join sep (q # ps)"

text \<open>\<^verbatim>\<open>int(x)\<close> on a float: truncation towards zero.\<close>

definition py_int :: "real \<Rightarrow> int" where
  "py_int x = (if 0 \<le> x then \<lfloor>x\<rfloor> else \<lceil>x\<rceil>)"

text \<open>
  \<^verbatim>\<open>PurePath.stem\<close>: the name without its last suffix; a dot in first or last
  position starts no suffix.
\<close>

fun rfind_dot :: "string \<Rightarrow> nat option" where
  "rfind_dot [] = None"
| "rfind_dot (c # cs) =
     (case rfind_dot cs of
        Some i \<Rightarrow> Some (Suc i)
      | None \<Rightarrow> (if c = CHR ''.'' then Some 0 else None))"

definition py_stem :: "string \<Rightarrow> string" where
  "py_stem name =
     (case rfind_dot name of
        None \<Rightarrow> name
      | Some i \<Rightarrow> (if 0 < i \<and> i < length name - 1 then take i name else name))"

subsection \<open>Equality and order of Python objects\<close>

text \<open>
  \<^verbatim>\<open>==\<close> and \<^verbatim>\<open><\<close> on the objects \<^verbatim>\<open>json.loads\<close> returns. Numbers (\<^verbatim>\<open>bool\<close>,
  \<^verbatim>\<open>int\<close>, \<^verbatim>\<open>float\<close>) compare by value, strings by code points, lists
  lexicographically; \<^verbatim>\<open><\<close> between any other two objects raises \<^verbatim>\<open>TypeError\<close>.
\<close>

fun num_val :: "json \<Rightarrow> real option" where
  "num_val (JBool b) = Some (if b then 1 else 0)"
| "num_val (JInt i) = Some (real_of_int i)"
| "num_val (JFloat r) = Some r"
| "num_val _ = None"

fun py_eq :: "json \<Rightarrow> json \<Rightarrow> bool"
  and py_eq_list :: "json list \<Rightarrow> json list \<Rightarrow> bool"
  and py_eq_dict :: "(string \<times> json) list \<Rightarrow> (string \<times> json) list \<Rightarrow> bool" where
  "py_eq JNull b = (b = JNull)"
| "py_eq (JBool x) b = (num_val b = Some (if x then 1 else 0))"
| "py_eq (JInt i) b = (num_val b = Some (real_of_int i))"
| "py_eq (JFloat r) b = (num_val b = Some r)"
| "py_eq (JStr s) b = (b = JStr s)"
| "py_eq (JArr xs) b = (case b of JArr ys \<Rightarrow> py_eq_list xs ys | _ \<Rightarrow> False)"
| "py_eq (JObj d) b =
     (case b of
        JObj e \<Rightarrow> set (map fst d) = set (map fst e) \<and> py_eq_dict d e
      | _ \<Rightarrow> False)"
| "py_eq_list [] ys = (ys = [])"
| "py_eq_list (x # xs) ys =
     (case ys of [] \<Rightarrow> False | y # ys' \<Rightarrow> py_eq x y \<and> py_eq_list xs ys')"
| "py_eq_dict [] e = True"
| "py_eq_dict ((k, v) # d) e =
     ((case map_of e k of None \<Rightarrow> False | Some w \<Rightarrow> py_eq v w) \<and> py_eq_dict d e)"

fun py_lt :: "json \<Rightarrow> json \<Rightarrow> py_error + bool"
  and py_lt_list :: "json list \<Rightarrow> json list \<Rightarrow> py_error + bool" where
  "py_lt (JStr s) b = (case b of JStr t \<Rightarrow> Inr (s < t) | _ \<Rightarrow> Inl TypeError)"
| "py_lt (JArr xs) b = (case b of JArr ys \<Rightarrow> py_lt_list xs ys | _ \<Rightarrow> Inl TypeError)"
| "py_lt (JObj d) b = Inl TypeError"
| "py_lt JNull b = Inl TypeError"
| "py_lt (JBool x) b =
     (case num_val b of Some r \<Rightarrow> Inr ((if x then 1 else 0) < r) | None \<Rightarrow> Inl TypeError)"
| "py_lt (JInt i) b =
     (case num_val b of Some r \<Rightarrow> Inr (real_of_int i < r) | None \<Rightarrow> Inl TypeError)"
| "py_lt (JFloat q) b =
     (case num_val b of Some r \<Rightarrow> Inr (q < r) | None \<Rightarrow> Inl TypeError)"
| "py_lt_list [] ys = Inr (ys \<noteq> [])"
| "py_lt_list (x # xs) ys =
     (case ys of
        [] \<Rightarrow> Inr False
      | y # ys' \<Rightarrow> (if py_eq x y then py_lt_list xs ys' else py_lt x y))"

section \<open>Data model\<close>

text \<open>
  What the scanner reads from the file system. A log file has a name, the modification
  time \<^verbatim>\<open>stat().st_mtime\<close> gives (\<open>None\<close> when \<^verbatim>\<open>stat()\<close> raises, as for a
  dangling symbolic link) and the list \<^verbatim>\<open>readlines()\<close> returns (\<open>None\<close> when the file
  cannot be opened or decoded). The entries of a directory are listed in the order
  \<^verbatim>\<open>iterdir()\<close> and \<^verbatim>\<open>glob()\<close> yield them.
\<close>

record log_file =
  fname :: string
  mtime :: "real option"
  flines :: "string list option"

record dir_entry =
  dname :: string
  is_dir :: bool
  dfiles :: "log_file list"

datatype root_dir =
    RootMissing
  | RootUnlistable
  | RootEntries "dir_entry list"

text \<open>
  The two library functions the scanner applies to values it does not control:
  \<^verbatim>\<open>json.loads\<close> (\<open>None\<close> when it raises) and \<^verbatim>\<open>str\<close> on a parsed object. They
  are parameters of the model.
\<close>

record builtins =
  loads :: "string \<Rightarrow> json option"
  py_str :: "json \<Rightarrow> string"

text \<open>The dictionaries \<^verbatim>\<open>_parse_session\<close> builds.\<close>

record pending =
  ptype :: string
  tool_name :: json
  description :: json

record tool_ref =
  tname :: json
  ttimestamp :: json

record snapshot =
  session_id :: json
  project_path :: string
  project_name :: string
  state :: string
  last_activity :: json
  idle_seconds :: int
  model :: json
  last_tool :: "tool_ref option"
  last_message_preview :: string
  pending_approval :: "pending option"

record report =
  timestamp :: string
  active_sessions :: "snapshot list"
  waiting_count :: nat
  processing_count :: nat
  projects_with_waiting :: "string list"

definition ACTIVE_THRESHOLD_SECONDS :: real where
  "ACTIVE_THRESHOLD_SECONDS = 600"

definition IDLE_THRESHOLD_SECONDS :: real where
  "IDLE_THRESHOLD_SECONDS = 300"

section \<open>Classifying one session file: \<^verbatim>\<open>_parse_session\<close>\<close>

text \<open>
  The local variables \<^verbatim>\<open>state\<close>, \<^verbatim>\<open>pending_approval\<close>, \<^verbatim>\<open>last_tool\<close>,
  \<^verbatim>\<open>last_message_preview\<close> and \<^verbatim>\<open>has_question\<close> of \<^verbatim>\<open>_parse_session\<close>.
\<close>

record locals =
  l_state :: string
  l_pending_approval :: "pending option"
  l_last_tool :: "tool_ref option"
  l_last_message_preview :: string
  l_has_question :: bool

definition init_locals :: locals where
  "init_locals =
     \<lparr>l_state = ''unknown'', l_pending_approval = None, l_last_tool = None,
      l_last_message_preview = [], l_has_question = False\<rparr>"

text \<open>
  \<^verbatim>\<open>for item in content\<close>: a list yields its items, a string its characters, a dict
  its keys; any other object is not iterable (\<^verbatim>\<open>TypeError\<close>, here \<open>None\<close>).
\<close>

fun py_iter :: "json \<Rightarrow> json list option" where
  "py_iter (JArr xs) = Some xs"
| "py_iter (JStr s) = Some (map (\<lambda>c. JStr [c]) s)"
| "py_iter (JObj d) = Some (map (\<lambda>kv. JStr (fst kv)) d)"
| "py_iter _ = None"

text \<open>\<^verbatim>\<open>x[:100]\<close>: defined on strings and lists, \<^verbatim>\<open>TypeError\<close> otherwise.\<close>

fun py_slice100 :: "json \<Rightarrow> json option" where
  "py_slice100 (JStr s) = Some (JStr (take 100 s))"
| "py_slice100 (JArr xs) = Some (JArr (take 100 xs))"
| "py_slice100 _ = None"

text \<open>
  The body of the \<^verbatim>\<open>tool_use\<close> branch (lines 470-489). Both arms call
  \<^verbatim>\<open>tool_input.get\<close>, which raises \<^verbatim>\<open>AttributeError\<close> unless the input is a dict.
\<close>

definition on_tool_use ::
  "builtins \<Rightarrow> json \<Rightarrow> (string \<times> json) list \<Rightarrow> locals \<Rightarrow> locals option" where
  "on_tool_use B ts item l =
     (let tool_name = dict_get_default item ''name'' (JStr ''Unknown'');
          tool_input = dict_get_default item ''input'' (JObj [])
      in if tool_name = JStr ''AskUserQuestion'' then
           (case tool_input of
              JObj inp \<Rightarrow>
                Some (l\<lparr>l_state := ''waiting_for_question'',
                        l_has_question := True,
                        l_pending_approval := Some
                          \<lparr>ptype = ''question'', tool_name = tool_name,
                           description =
                             JStr (take 100 (py_str B (dict_get_default inp ''questions'' (JArr []))))\<rparr>,
                        l_last_tool := Some \<lparr>tname = tool_name, ttimestamp = ts\<rparr>\<rparr>)
            | _ \<Rightarrow> None)
         else
           (case tool_input of
              JObj inp \<Rightarrow>
                (case py_slice100 (dict_get_default inp ''command'' (JStr [])) of
                   None \<Rightarrow> None
                 | Some dflt \<Rightarrow>
                     Some (l\<lparr>l_state := ''waiting_for_approval'',
                             l_pending_approval := Some
                               \<lparr>ptype = ''tool_use'', tool_name = tool_name,
                                description = dict_get_default inp ''description'' dflt\<rparr>,
                             l_last_tool := Some \<lparr>tname = tool_name, ttimestamp = ts\<rparr>\<rparr>))
            | _ \<Rightarrow> None))"

text \<open>
  The body of the \<^verbatim>\<open>text\<close> branch (lines 492-496). A text that is not a string
  raises: \<^verbatim>\<open>len\<close> fails on numbers, booleans and \<^verbatim>\<open>None\<close>; on a list or a dict
  either \<^verbatim>\<open>text[:150] + "..."\<close> or \<^verbatim>\<open>text.strip()\<close> fails.
\<close>

definition on_text :: "(string \<times> json) list \<Rightarrow> locals \<Rightarrow> locals option" where
  "on_text item l =
     (case dict_get_default item ''text'' (JStr []) of
        JStr text \<Rightarrow>
          Some (l\<lparr>l_last_message_preview :=
                    (if length text > 150 then take 150 text @ ''...'' else text),
                  l_has_question :=
                    (if py_endswith (py_strip text) ''?'' then True else l_has_question l)\<rparr>)
      | _ \<Rightarrow> None)"

text \<open>The loop over the content items (lines 467-496); \<open>None\<close> when an item raises.\<close>

fun scan_items :: "builtins \<Rightarrow> json \<Rightarrow> json list \<Rightarrow> locals \<Rightarrow> locals option" where
  "scan_items B ts [] l = Some l"
| "scan_items B ts (item # rest) l =
     (case item of
        JObj d \<Rightarrow>
          (if dict_get d ''type'' = JStr ''tool_use'' then on_tool_use B ts d l
           else if dict_get d ''type'' = JStr ''text'' then
             (case on_text d l of
                None \<Rightarrow> None
              | Some l' \<Rightarrow> scan_items B ts rest l')
           else scan_items B ts rest l)
      | _ \<Rightarrow> scan_items B ts rest l)"

text \<open>Lines 452-501: the state of the session, from the last entry and the age.\<close>

definition determine_state ::
  "builtins \<Rightarrow> real \<Rightarrow> (string \<times> json) list \<Rightarrow> locals option" where
  "determine_state B age_seconds last_entry =
     (let entry_type = dict_get_default last_entry ''type'' (JStr ''unknown'')
      in if age_seconds > IDLE_THRESHOLD_SECONDS then Some (init_locals\<lparr>l_state := ''idle''\<rparr>)
         else if entry_type = JStr ''user'' then Some (init_locals\<lparr>l_state := ''processing''\<rparr>)
         else if entry_type = JStr ''assistant'' then
           (case dict_get_default last_entry ''message'' (JObj []) of
              JObj message \<Rightarrow>
                (case py_iter (dict_get_default message ''content'' (JArr [])) of
                   None \<Rightarrow> None
                 | Some content \<Rightarrow>
                     (case scan_items B (dict_get last_entry ''timestamp'') content init_locals of
                        None \<Rightarrow> None
                      | Some l \<Rightarrow>
                          Some (if l_state l = ''unknown''
                                then l\<lparr>l_state := (if l_has_question l
                                                     then ''waiting_for_question''
                                                     else ''task_complete'')\<rparr>
                                else l)))
            | _ \<Rightarrow> None)
         else Some init_locals)"

text \<open>
  Lines 507-522: the last tool use among the last ten lines, newest first. A line that
  raises anywhere is skipped by the bare \<^verbatim>\<open>except\<close>.
\<close>

fun first_tool_use :: "json \<Rightarrow> json list \<Rightarrow> tool_ref option" where
  "first_tool_use ts [] = None"
| "first_tool_use ts (item # rest) =
     (case item of
        JObj d \<Rightarrow>
          (if dict_get d ''type'' = JStr ''tool_use''
           then Some \<lparr>tname = dict_get_default d ''name'' (JStr ''Unknown''), ttimestamp = ts\<rparr>
           else first_tool_use ts rest)
      | _ \<Rightarrow> first_tool_use ts rest)"

definition lookback_line :: "builtins \<Rightarrow> string \<Rightarrow> tool_ref option" where
  "lookback_line B line =
     (case loads B (py_strip line) of
        Some (JObj entry) \<Rightarrow>
          (if dict_get entry ''type'' = JStr ''assistant'' then
             (case dict_get_default entry ''message'' (JObj []) of
                JObj message \<Rightarrow>
                  (case py_iter (dict_get_default message ''content'' (JArr [])) of
                     None \<Rightarrow> None
                   | Some content \<Rightarrow> first_tool_use (dict_get entry ''timestamp'') content)
              | _ \<Rightarrow> None)
           else None)
      | _ \<Rightarrow> None)"

fun recover_last_tool :: "builtins \<Rightarrow> string list \<Rightarrow> tool_ref option" where
  "recover_last_tool B [] = None"
| "recover_last_tool B (line # rest) =
     (case lookback_line B line of
        Some t \<Rightarrow> Some t
      | None \<Rightarrow> recover_last_tool B rest)"

text \<open>
  \<^verbatim>\<open>_parse_session\<close>. Every exception is caught by the \<^verbatim>\<open>except Exception\<close> of
  line 537 and the function returns \<^verbatim>\<open>None\<close>.
\<close>

definition parse_session ::
  "builtins \<Rightarrow> log_file \<Rightarrow> string \<Rightarrow> string \<Rightarrow> real \<Rightarrow> snapshot option" where
  "parse_session B session_file pname ppath age_seconds =
     (case flines session_file of
        None \<Rightarrow> None
      | Some lines \<Rightarrow>
          (if lines = [] then None
           else
             (case loads B (py_strip (last lines)) of
                Some (JObj last_entry) \<Rightarrow>
                  (case determine_state B age_seconds last_entry of
                     None \<Rightarrow> None
                   | Some l \<Rightarrow>
                       (case dict_get_default last_entry ''message'' (JObj []) of
                          JObj message \<Rightarrow>
                            Some \<lparr>session_id =
                                    dict_get_default last_entry ''sessionId''
                                      (JStr (py_stem (fname session_file))),
                                  project_path = ppath,
                                  project_name = pname,
                                  state = l_state l,
                                  last_activity = dict_get last_entry ''timestamp'',
                                  idle_seconds = py_int age_seconds,
                                  model = dict_get_default message ''model'' (JStr ''unknown''),
                                  last_tool =
                                    (case l_last_tool l of
                                       Some t \<Rightarrow> Some t
                                     | None \<Rightarrow>
                                         recover_last_tool B
                                           (rev (drop (length lines - 10) lines))),
                                  last_message_preview = l_last_message_preview l,
                                  pending_approval = l_pending_approval l\<rparr>
                        | _ \<Rightarrow> None))
              | _ \<Rightarrow> None)))"

section \<open>Scanning all projects: \<^verbatim>\<open>scan_active_sessions\<close>\<close>

text \<open>Lines 390-398: project name and path from the name of the project directory.\<close>

definition derive_project :: "string \<Rightarrow> string \<times> string" where
  "derive_project dir_name =
     (if py_startswith dir_name ''-'' then
        (let parts = py_split CHR ''-'' dir_name
         in ((if parts \<noteq> [] then last parts else dir_name),
             (if length parts > 1 then ''/'' @ py_join ''/'' (drop 1 parts) else dir_name)))
      else (dir_name, dir_name))"

text \<open>Lines 417-424: one more snapshot in the result.\<close>

definition add_session :: "snapshot \<Rightarrow> string \<Rightarrow> report \<Rightarrow> report" where
  "add_session session_info pname result =
     (let r1 = result\<lparr>active_sessions := active_sessions result @ [session_info]\<rparr>
      in if state session_info = ''waiting_for_question''
            \<or> state session_info = ''waiting_for_approval'' then
           (let r2 = r1\<lparr>waiting_count := waiting_count r1 + 1\<rparr>
            in if pname \<in> set (projects_with_waiting r2) then r2
               else r2\<lparr>projects_with_waiting := projects_with_waiting r2 @ [pname]\<rparr>)
         else if state session_info = ''processing'' then
           r1\<lparr>processing_count := processing_count r1 + 1\<rparr>
         else r1)"

text \<open>Lines 402-424: one file the glob yields.\<close>

definition scan_file ::
  "builtins \<Rightarrow> real \<Rightarrow> string \<Rightarrow> string \<Rightarrow> log_file \<Rightarrow> report \<Rightarrow> py_error + report" where
  "scan_file B now pname ppath session_file result =
     (if py_startswith (fname session_file) ''agent-'' then Inr result
      else
        (case mtime session_file of
           None \<Rightarrow> Inl OSError
         | Some m \<Rightarrow>
             (let age_seconds = now - m
              in if age_seconds > ACTIVE_THRESHOLD_SECONDS then Inr result
                 else
                   (case parse_session B session_file pname ppath age_seconds of
                      None \<Rightarrow> Inr result
                    | Some session_info \<Rightarrow> Inr (add_session session_info pname result)))))"

fun scan_files ::
  "builtins \<Rightarrow> real \<Rightarrow> string \<Rightarrow> string \<Rightarrow> log_file list \<Rightarrow> report \<Rightarrow> py_error + report" where
  "scan_files B now pname ppath [] result = Inr result"
| "scan_files B now pname ppath (f # fs) result =
     (case scan_file B now pname ppath f result of
        Inl e \<Rightarrow> Inl e
      | Inr result' \<Rightarrow> scan_files B now pname ppath fs result')"

text \<open>\<^verbatim>\<open>proj_dir.glob("*.jsonl")\<close>: the entries whose name ends in \<^verbatim>\<open>.jsonl\<close>.\<close>

definition glob_jsonl :: "log_file list \<Rightarrow> log_file list" where
  "glob_jsonl fs = filter (\<lambda>f. py_endswith (fname f) ''.jsonl'') fs"

definition scan_dir :: "builtins \<Rightarrow> real \<Rightarrow> dir_entry \<Rightarrow> report \<Rightarrow> py_error + report" where
  "scan_dir B now proj_dir result =
     (if is_dir proj_dir then
        (case derive_project (dname proj_dir) of
           (pname, ppath) \<Rightarrow> scan_files B now pname ppath (glob_jsonl (dfiles proj_dir)) result)
      else Inr result)"

fun scan_dirs :: "builtins \<Rightarrow> real \<Rightarrow> dir_entry list \<Rightarrow> report \<Rightarrow> py_error + report" where
  "scan_dirs B now [] result = Inr result"
| "scan_dirs B now (d # ds) result =
     (case scan_dir B now d result of
        Inl e \<Rightarrow> Inl e
      | Inr result' \<Rightarrow> scan_dirs B now ds result')"

text \<open>
  Lines 428-430: \<^verbatim>\<open>sort(key=..., reverse=True)\<close>. The key of a snapshot is its
  \<^verbatim>\<open>last_activity\<close>, or the empty string when that is falsy. The sort is stable and
  descending, and an exception of a comparison leaves the sort. Insertion from the right
  makes at least one comparison with every element of a list of two or more, as every
  comparison sort does; which further pairs CPython compares is not modelled.
\<close>

definition sort_key :: "snapshot \<Rightarrow> json" where
  "sort_key x = (if truthy (last_activity x) then last_activity x else JStr [])"

fun insert_desc :: "snapshot \<Rightarrow> snapshot list \<Rightarrow> py_error + snapshot list" where
  "insert_desc x [] = Inr [x]"
| "insert_desc x (y # ys) =
     (case py_lt (sort_key x) (sort_key y) of
        Inl e \<Rightarrow> Inl e
      | Inr True \<Rightarrow> (case insert_desc x ys of Inl e \<Rightarrow> Inl e | Inr r \<Rightarrow> Inr (y # r))
      | Inr False \<Rightarrow> Inr (x # y # ys))"

fun sort_sessions :: "snapshot list \<Rightarrow> py_error + snapshot list" where
  "sort_sessions [] = Inr []"
| "sort_sessions (x # xs) =
     (case sort_sessions xs of
        Inl e \<Rightarrow> Inl e
      | Inr r \<Rightarrow> insert_desc x r)"

text \<open>
  \<^verbatim>\<open>scan_active_sessions\<close>. The two readings of the clock are parameters: \<open>ts\<close> is the
  string \<^verbatim>\<open>datetime.now(timezone.utc).isoformat()\<close> returns, \<open>now\<close> is \<^verbatim>\<open>time.time()\<close>.
\<close>

definition empty_report :: "string \<Rightarrow> report" where
  "empty_report ts =
     \<lparr>timestamp = ts, active_sessions = [], waiting_count = 0, processing_count = 0,
      projects_with_waiting = []\<rparr>"

definition scan_active_sessions ::
  "builtins \<Rightarrow> root_dir \<Rightarrow> string \<Rightarrow> real \<Rightarrow> py_error + report" where
  "scan_active_sessions B projects_dir ts now =
     (case projects_dir of
        RootMissing \<Rightarrow> Inr (empty_report ts)
      | RootUnlistable \<Rightarrow> Inl OSError
      | RootEntries ds \<Rightarrow>
          (case scan_dirs B now ds (empty_report ts) of
             Inl e \<Rightarrow> Inl e
           | Inr result \<Rightarrow>
               (case sort_sessions (active_sessions result) of
                  Inl e \<Rightarrow> Inl e
                | Inr sorted_sessions \<Rightarrow> Inr (result\<lparr>active_sessions := sorted_sessions\<rparr>))))"

section \<open>Predicates on content items\<close>

text \<open>
  The tests the loop of \<^verbatim>\<open>_parse_session\<close> makes on a content item, named so that
  properties of the loop can be stated: the item is a dict whose \<^verbatim>\<open>type\<close> is
  \<^verbatim>\<open>tool_use\<close> (line 469) or \<^verbatim>\<open>text\<close> (line 491), the tool name and the text
  the loop reads from it, and whether the stripped text ends with a question mark
  (line 495).
\<close>

definition is_tool_use :: "json \<Rightarrow> bool" where
  "is_tool_use item =
     (case item of JObj d \<Rightarrow> dict_get d ''type'' = JStr ''tool_use'' | _ \<Rightarrow> False)"

definition is_text :: "json \<Rightarrow> bool" where
  "is_text item =
     (case item of JObj d \<Rightarrow> dict_get d ''type'' = JStr ''text'' | _ \<Rightarrow> False)"

definition item_name :: "json \<Rightarrow> json" where
  "item_name item =
     (case item of JObj d \<Rightarrow> dict_get_default d ''name'' (JStr ''Unknown'') | _ \<Rightarrow> JNull)"

definition item_input :: "json \<Rightarrow> json" where
  "item_input item =
     (case item of JObj d \<Rightarrow> dict_get_default d ''input'' (JObj []) | _ \<Rightarrow> JNull)"

definition item_text :: "json \<Rightarrow> json" where
  "item_text item =
     (case item of JObj d \<Rightarrow> dict_get_default d ''text'' (JStr []) | _ \<Rightarrow> JNull)"

definition is_str :: "json \<Rightarrow> bool" where
  "is_str v = (case v of JStr t \<Rightarrow> True | _ \<Rightarrow> False)"

definition is_dict :: "json \<Rightarrow> bool" where
  "is_dict v = (case v of JObj d \<Rightarrow> True | _ \<Rightarrow> False)"

definition asks_question :: "json \<Rightarrow> bool" where
  "asks_question item =
     (is_text item \<and>
      (case item_text item of JStr t \<Rightarrow> py_endswith (py_strip t) ''?'' | _ \<Rightarrow> False))"

text \<open>The message and the content list \<^verbatim>\<open>_parse_session\<close> reads from an entry.\<close>

definition entry_message :: "(string \<times> json) list \<Rightarrow> json" where
  "entry_message entry = dict_get_default entry ''message'' (JObj [])"

definition entry_content :: "(string \<times> json) list \<Rightarrow> json" where
  "entry_content entry =
     (case entry_message entry of
        JObj message \<Rightarrow> dict_get_default message ''content'' (JArr [])
      | _ \<Rightarrow> JNull)"

section \<open>Example log lines\<close>

text \<open>
  Log lines and the objects \<^verbatim>\<open>json.loads\<close> returns for them, for the concrete
  instances below. \<open>demo_loads\<close> is \<^verbatim>\<open>json.loads\<close> restricted to these lines,
  \<open>demo_str\<close> is \<^verbatim>\<open>str\<close> restricted to the empty list, and \<open>demo_file\<close> is a
  session file of one line, last modified at time 940.
\<close>

definition bash_line :: string where
  \<open>bash_line = ''{"type":"assistant","message":{"content":[{"type":"tool_use","name":"Bash","input":{"command":"ls -la"}}]}}''\<close>

definition bash_entry :: "(string \<times> json) list" where
  "bash_entry =
     [(''type'', JStr ''assistant''),
      (''message'', JObj [(''content'', JArr
         [JObj [(''type'', JStr ''tool_use''), (''name'', JStr ''Bash''),
                (''input'', JObj [(''command'', JStr ''ls -la'')])]])])]"

definition question_line :: string where
  \<open>question_line = ''{"type":"assistant","message":{"content":[{"type":"text","text":"Done. Anything else?"}]}}''\<close>

definition question_entry :: "(string \<times> json) list" where
  "question_entry =
     [(''type'', JStr ''assistant''),
      (''message'', JObj [(''content'', JArr
         [JObj [(''type'', JStr ''text''), (''text'', JStr ''Done. Anything else?'')]])])]"

definition done_line :: string where
  \<open>done_line = ''{"type":"assistant","message":{"content":[{"type":"text","text":"Done."}]}}''\<close>

definition done_entry :: "(string \<times> json) list" where
  "done_entry =
     [(''type'', JStr ''assistant''),
      (''message'', JObj [(''content'', JArr
         [JObj [(''type'', JStr ''text''), (''text'', JStr ''Done.'')]])])]"

definition two_tools_line :: string where
  \<open>two_tools_line = ''{"type":"assistant","message":{"content":[{"type":"tool_use","name":"Bash","input":{}},{"type":"tool_use","name":"AskUserQuestion","input":{}}]}}''\<close>

definition two_tools_entry :: "(string \<times> json) list" where
  "two_tools_entry =
     [(''type'', JStr ''assistant''),
      (''message'', JObj [(''content'', JArr
         [JObj [(''type'', JStr ''tool_use''), (''name'', JStr ''Bash''), (''input'', JObj [])],
          JObj [(''type'', JStr ''tool_use''), (''name'', JStr ''AskUserQuestion''),
                (''input'', JObj [])]])])]"

definition ask_line :: string where
  \<open>ask_line = ''{"type":"assistant","message":{"content":[{"type":"text","text":"One moment."},{"type":"tool_use","name":"AskUserQuestion","input":{"questions":[]}}]}}''\<close>

definition ask_entry :: "(string \<times> json) list" where
  "ask_entry =
     [(''type'', JStr ''assistant''),
      (''message'', JObj [(''content'', JArr
         [JObj [(''type'', JStr ''text''), (''text'', JStr ''One moment.'')],
          JObj [(''type'', JStr ''tool_use''), (''name'', JStr ''AskUserQuestion''),
                (''input'', JObj [(''questions'', JArr [])])]])])]"

definition bare_line :: string where
  \<open>bare_line = ''{"type":"assistant"}''\<close>

definition bare_entry :: "(string \<times> json) list" where
  "bare_entry = [(''type'', JStr ''assistant'')]"

definition user_a_line :: string where
  \<open>user_a_line = ''{"type":"user","timestamp":"2024-05-01T10:00:00Z"}''\<close>

definition user_a_entry :: "(string \<times> json) list" where
  "user_a_entry = [(''type'', JStr ''user''), (''timestamp'', JStr ''2024-05-01T10:00:00Z'')]"

definition user_b_line :: string where
  \<open>user_b_line = ''{"type":"user","timestamp":"2024-05-01T11:00:00Z"}''\<close>

definition user_b_entry :: "(string \<times> json) list" where
  "user_b_entry = [(''type'', JStr ''user''), (''timestamp'', JStr ''2024-05-01T11:00:00Z'')]"

definition user_none_line :: string where
  \<open>user_none_line = ''{"type":"user"}''\<close>

definition user_none_entry :: "(string \<times> json) list" where
  "user_none_entry = [(''type'', JStr ''user'')]"

definition user_num_line :: string where
  \<open>user_num_line = ''{"type":"user","timestamp":5}''\<close>

definition user_num_entry :: "(string \<times> json) list" where
  "user_num_entry = [(''type'', JStr ''user''), (''timestamp'', JInt 5)]"

definition demo_loads :: "string \<Rightarrow> json option" where
  "demo_loads =
     map_of [(bash_line, JObj bash_entry), (question_line, JObj question_entry),
             (done_line, JObj done_entry), (two_tools_line, JObj two_tools_entry),
             (ask_line, JObj ask_entry), (bare_line, JObj bare_entry),
             (user_a_line, JObj user_a_entry), (user_b_line, JObj user_b_entry),
             (user_none_line, JObj user_none_entry), (user_num_line, JObj user_num_entry)]"

definition demo_str :: "json \<Rightarrow> string" where
  "demo_str v = (case v of JArr [] \<Rightarrow> ''[]'' | _ \<Rightarrow> [])"

definition demo_builtins :: builtins where
  "demo_builtins = \<lparr>loads = demo_loads, py_str = demo_str\<rparr>"

definition demo_file :: "string \<Rightarrow> log_file" where
  "demo_file line = \<lparr>fname = ''s1.jsonl'', mtime = Some 940, flines = Some [line @ [CHR 0x0A]]\<rparr>"

text \<open>
  Session files of one line in the project directory \<^verbatim>\<open>-Users-alice-proj\<close>, and
  two roots scanned at time 1000 below.
\<close>

definition session_file :: "string \<Rightarrow> real \<Rightarrow> string \<Rightarrow> log_file" where
  "session_file name m line = \<lparr>fname = name, mtime = Some m, flines = Some [line @ [CHR 0x0A]]\<rparr>"

definition project_dir :: "log_file list \<Rightarrow> dir_entry" where
  "project_dir fs = \<lparr>dname = ''-Users-alice-proj'', is_dir = True, dfiles = fs\<rparr>"

definition three_sessions_root :: root_dir where
  "three_sessions_root =
     RootEntries [project_dir [session_file ''a.jsonl'' 940 user_a_line,
                               session_file ''n.jsonl'' 950 user_none_line,
                               session_file ''b.jsonl'' 960 user_b_line]]"

definition mixed_root :: root_dir where
  "mixed_root =
     RootEntries [project_dir [session_file ''a.jsonl'' 940 user_a_line,
                               session_file ''i.jsonl'' 950 user_num_line]]"

section \<open>Order of the report\<close>

text \<open>
  The string by which a snapshot is sorted when its \<^verbatim>\<open>last_activity\<close> is a string or
  falsy (absent, \<^verbatim>\<open>None\<close>, empty): the key of line 429 is then this string.
\<close>

definition activity_string :: "snapshot \<Rightarrow> string" where
  "activity_string x = (case last_activity x of JStr t \<Rightarrow> t | _ \<Rightarrow> [])"

definition activity_absent_or_str :: "snapshot \<Rightarrow> bool" where
  "activity_absent_or_str x = (is_str (last_activity x) \<or> \<not> truthy (last_activity x))"

section \<open>Project name and path\<close>


lemma py_split_not_Nil: "py_split sep s \<noteq> []"
  by (induction s) (auto split: list.splits)

lemma py_join_Cons_Cons: "py_join sep ((c # p) # ps) = c # py_join sep (p # ps)"
  by (cases ps) simp_all

lemma py_join_split: "py_join [r] (py_split sep s) = map (\<lambda>c. if c = sep then r else c) s"
proof (induction s)
  case Nil
  show ?case by simp
next
  case (Cons c cs)
  obtain p ps where sp: "py_split sep cs = p # ps"
    using py_split_not_Nil [of sep cs] by (cases "py_split sep cs") auto
  show ?case
  proof (cases "c = sep")
    case True
    then show ?thesis using Cons sp by simp
  next
    case False
    then show ?thesis using Cons sp by (simp add: py_join_Cons_Cons)
  qed
qed

lemma py_split_no_sep: "p \<in> set (py_split sep s) \<Longrightarrow> sep \<notin> set p"
proof (induction s arbitrary: p)
  case Nil
  then show ?case by simp
next
  case (Cons c cs)
  obtain q qs where sp: "py_split sep cs = q # qs"
    using py_split_not_Nil [of sep cs] by (cases "py_split sep cs") auto
  show ?case
  proof (cases "c = sep")
    case True
    then show ?thesis using Cons sp by auto
  next
    case False
    then show ?thesis using Cons sp by auto
  qed
qed

lemma py_split_last_suffix:
  "sep \<in> set s \<Longrightarrow> \<exists>pre. s = pre @ sep # last (py_split sep s)"
proof (induction s)
  case Nil
  then show ?case by simp
next
  case (Cons c cs)
  obtain q qs where sp: "py_split sep cs = q # qs"
    using py_split_not_Nil [of sep cs] by (cases "py_split sep cs") auto
  show ?case
  proof (cases "sep \<in> set cs")
    case True
    then obtain pre where pre: "cs = pre @ sep # last (py_split sep cs)"
      using Cons.IH by blast
    have "last (py_split sep (c # cs)) = last (py_split sep cs)"
    proof (cases "c = sep")
      case True
      then show ?thesis using sp by simp
    next
      case False
      have "qs \<noteq> []"
      proof
        assume "qs = []"
        then have "py_join [sep] (py_split sep cs) = q" using sp by simp
        then have "cs = q" by (simp add: py_join_split)
        moreover have "sep \<notin> set q" using py_split_no_sep [of q sep cs] sp by simp
        ultimately show False using True by simp
      qed
      then show ?thesis using sp False by simp
    qed
    then have "c # cs = (c # pre) @ sep # last (py_split sep (c # cs))"
      using pre by simp
    then show ?thesis by blast
  next
    case False
    then have c: "c = sep" using Cons.prems by simp
    have "py_join [sep] (py_split sep cs) = cs"
      using False by (simp add: py_join_split map_idI)
    moreover have "qs = []"
    proof (rule ccontr)
      assume "qs \<noteq> []"
      then obtain r rs where "qs = r # rs" by (cases qs) auto
      then have "py_join [sep] (py_split sep cs) = q @ sep # py_join [sep] (r # rs)"
        using sp by simp
      then have "sep \<in> set (py_join [sep] (py_split sep cs))" by simp
      then show False using False \<open>py_join [sep] (py_split sep cs) = cs\<close> by simp
    qed
    ultimately have "q = cs" using sp by simp
    then have "last (py_split sep (c # cs)) = cs" using c sp \<open>qs = []\<close> by simp
    then have "c # cs = [] @ sep # last (py_split sep (c # cs))" using c by simp
    then show ?thesis by blast
  qed
qed


text \<open>
  Claim C7, as the code has it. For a directory name that starts with \<open>-\<close>, the project
  name is the last segment of the name split at \<open>-\<close>: the text after the last \<open>-\<close>,
  which holds no \<open>-\<close> and is empty when the name ends with \<open>-\<close>. The project path is
  \<open>/\<close> followed by the segments after the first joined with \<open>/\<close>, which is the name
  with every \<open>-\<close> replaced by \<open>/\<close>.
\<close>

theorem derive_project_segments:
  assumes "py_startswith dir_name ''-''"
  shows "fst (derive_project dir_name) = last (py_split CHR ''-'' dir_name)
       \<and> snd (derive_project dir_name) = ''/'' @ py_join ''/'' (tl (py_split CHR ''-'' dir_name))
       \<and> (\<exists>pre. dir_name = pre @ ''-'' @ fst (derive_project dir_name))
       \<and> CHR ''-'' \<notin> set (fst (derive_project dir_name))
       \<and> snd (derive_project dir_name) = map (\<lambda>c. if c = CHR ''-'' then CHR ''/'' else c) dir_name"
proof -
  obtain cs where d: "dir_name = CHR ''-'' # cs"
    using assms by (cases dir_name) (auto simp: py_startswith_def)
  let ?parts = "py_split CHR ''-'' dir_name"
  have parts: "?parts = [] # py_split CHR ''-'' cs" using d by simp
  have len: "length ?parts > 1"
    using parts py_split_not_Nil [of "CHR ''-''" cs] by (cases "py_split CHR ''-'' cs") auto
  have ne: "?parts \<noteq> []" using parts by simp
  have n: "fst (derive_project dir_name) = last ?parts"
    using assms ne by (simp add: derive_project_def Let_def)
  have p: "snd (derive_project dir_name) = ''/'' @ py_join ''/'' (tl ?parts)"
    using assms len by (simp add: derive_project_def Let_def drop_Suc)
  have "py_join ''/'' (tl ?parts) = map (\<lambda>c. if c = CHR ''-'' then CHR ''/'' else c) cs"
    using parts by (simp add: py_join_split)
  then have m: "snd (derive_project dir_name) = map (\<lambda>c. if c = CHR ''-'' then CHR ''/'' else c) dir_name"
    using p d by simp
  have "CHR ''-'' \<in> set dir_name" using d by simp
  then obtain pre where "dir_name = pre @ CHR ''-'' # last ?parts"
    using py_split_last_suffix by blast
  then have e: "\<exists>pre. dir_name = pre @ ''-'' @ fst (derive_project dir_name)"
    using n by auto
  have "last ?parts \<in> set ?parts" using ne by simp
  then have s: "CHR ''-'' \<notin> set (fst (derive_project dir_name))"
    using n py_split_no_sep by metis
  show ?thesis using n p e s m by blast
qed

theorem derive_project_segments_witness:
  "py_startswith ''-Users-alice-proj'' ''-''
   \<and> derive_project ''-Users-alice-proj'' = (''proj'', ''/Users/alice/proj'')"
proof -
  have h: "py_startswith ''-Users-alice-proj'' ''-''" by (simp add: py_startswith_def)
  have "snd (derive_project ''-Users-alice-proj'') = ''/Users/alice/proj''"
    using derive_project_segments [OF h] by simp
  moreover have "fst (derive_project ''-Users-alice-proj'') = ''proj''"
    using derive_project_segments [OF h] by simp
  ultimately show ?thesis using h by (simp add: prod_eq_iff)
qed


text \<open>
  The claim's "last non-empty segment" is not what the code takes: for the name
  \<open>-Users-alice-\<close> the last non-empty segment is \<open>alice\<close>, the derived name is empty.
\<close>

theorem project_name_last_nonempty_counterexample:
  "py_startswith ''-Users-alice-'' ''-''
   \<and> fst (derive_project ''-Users-alice-'') = []
   \<and> last (filter (\<lambda>p. p \<noteq> []) (py_split CHR ''-'' ''-Users-alice-'')) = ''alice''
   \<and> fst (derive_project ''-Users-alice-'')
       \<noteq> last (filter (\<lambda>p. p \<noteq> []) (py_split CHR ''-'' ''-Users-alice-''))"
  by (simp add: py_startswith_def derive_project_def)

section \<open>Facts about \<^verbatim>\<open>_parse_session\<close>\<close>

lemma parse_session_SomeD:
  assumes "parse_session B f pn pp age = Some s"
  shows "\<exists>lines e l m. flines f = Some lines \<and> lines \<noteq> []
           \<and> loads B (py_strip (last lines)) = Some (JObj e)
           \<and> determine_state B age e = Some l \<and> entry_message e = JObj m
           \<and> state s = l_state l \<and> pending_approval s = l_pending_approval l
           \<and> last_message_preview s = l_last_message_preview l
           \<and> project_name s = pn \<and> project_path s = pp
           \<and> last_activity s = dict_get e ''timestamp'' \<and> idle_seconds s = py_int age"
  using assms
  by (auto simp: parse_session_def entry_message_def split: option.splits json.splits if_splits)

lemma parse_session_SomeI:
  assumes "flines f = Some lines" "lines \<noteq> []"
    and "loads B (py_strip (last lines)) = Some (JObj e)"
    and "determine_state B age e = Some l" "entry_message e = JObj m"
  shows "\<exists>s. parse_session B f pn pp age = Some s
           \<and> state s = l_state l \<and> pending_approval s = l_pending_approval l
           \<and> last_message_preview s = l_last_message_preview l
           \<and> project_name s = pn \<and> project_path s = pp
           \<and> last_activity s = dict_get e ''timestamp'' \<and> idle_seconds s = py_int age"
  using assms by (simp add: parse_session_def entry_message_def)

lemma parse_session_bad_message:
  assumes "flines f = Some lines" "lines \<noteq> []"
    and "loads B (py_strip (last lines)) = Some (JObj e)"
    and "\<not> is_dict (entry_message e)"
  shows "parse_session B f pn pp age = None"
  using assms
  by (auto simp: parse_session_def entry_message_def is_dict_def split: option.splits json.splits)

lemma determine_state_idle:
  "300 < age \<Longrightarrow> determine_state B age e = Some (init_locals\<lparr>l_state := ''idle''\<rparr>)"
  by (simp add: determine_state_def IDLE_THRESHOLD_SECONDS_def Let_def)

lemma determine_state_assistant:
  assumes "age \<le> 300" "map_of e ''type'' = Some (JStr ''assistant'')"
    and "entry_content e = JArr items"
  shows "determine_state B age e =
           (case scan_items B (dict_get e ''timestamp'') items init_locals of
              None \<Rightarrow> None
            | Some l \<Rightarrow>
                Some (if l_state l = ''unknown''
                      then l\<lparr>l_state := (if l_has_question l then ''waiting_for_question''
                                           else ''task_complete'')\<rparr>
                      else l))"
  using assms
  by (auto simp: determine_state_def IDLE_THRESHOLD_SECONDS_def Let_def entry_content_def
      entry_message_def dict_get_default_def split: json.splits option.splits)

lemma scan_items_skip:
  "\<not> is_tool_use item \<Longrightarrow> \<not> is_text item \<Longrightarrow>
   scan_items B ts (item # rest) l = scan_items B ts rest l"
  by (auto simp: is_tool_use_def is_text_def split: json.splits)

lemma scan_items_text:
  "\<not> is_tool_use item \<Longrightarrow> is_text item \<Longrightarrow>
   scan_items B ts (item # rest) l =
     (case item_text item of
        JStr str \<Rightarrow>
          scan_items B ts rest
            (l\<lparr>l_last_message_preview :=
                  (if length str > 150 then take 150 str @ ''...'' else str),
               l_has_question := (l_has_question l \<or> asks_question item)\<rparr>)
      | _ \<Rightarrow> None)"
  by (auto simp: is_tool_use_def is_text_def item_text_def asks_question_def on_text_def
      split: json.splits)

lemma scan_items_tool_use:
  "is_tool_use (JObj d) \<Longrightarrow> scan_items B ts (JObj d # rest) l = on_tool_use B ts d l"
  by (auto simp: is_tool_use_def)

declare scan_items.simps(2) [simp del]

lemma scan_items_ignorable:
  "\<forall>i\<in>set items. \<not> is_tool_use i \<and> \<not> is_text i \<Longrightarrow> scan_items B ts items l = Some l"
proof (induction items)
  case Nil
  show ?case by simp
next
  case (Cons i items)
  then show ?case by (simp add: scan_items_skip)
qed

lemma scan_items_no_tool:
  assumes "\<forall>i\<in>set items. \<not> is_tool_use i" "scan_items B ts items l = Some l'"
  shows "l_state l' = l_state l \<and> l_pending_approval l' = l_pending_approval l
       \<and> l_last_tool l' = l_last_tool l
       \<and> (l_has_question l' \<longleftrightarrow> l_has_question l \<or> (\<exists>i\<in>set items. asks_question i))"
  using assms
proof (induction items arbitrary: l)
  case Nil
  then show ?case by simp
next
  case (Cons i items)
  have nt: "\<not> is_tool_use i" and rest: "\<forall>i\<in>set items. \<not> is_tool_use i"
    using Cons.prems(1) by simp_all
  show ?case
  proof (cases "is_text i")
    case False
    then have "scan_items B ts items l = Some l'"
      using Cons.prems(2) nt by (simp add: scan_items_skip)
    moreover have "\<not> asks_question i" using False by (simp add: asks_question_def)
    ultimately show ?thesis using Cons.IH [OF rest] by simp
  next
    case True
    then obtain str where t: "item_text i = JStr str"
      using Cons.prems(2) nt by (auto simp: scan_items_text split: json.splits)
    let ?l = "l\<lparr>l_last_message_preview :=
                  (if length str > 150 then take 150 str @ ''...'' else str),
               l_has_question := (l_has_question l \<or> asks_question i)\<rparr>"
    have "scan_items B ts items ?l = Some l'"
      using Cons.prems(2) nt True t by (simp add: scan_items_text)
    from Cons.IH [OF rest this] show ?thesis by auto
  qed
qed

lemma scan_items_no_tool_ex:
  assumes "\<forall>i\<in>set items. \<not> is_tool_use i \<and> (is_text i \<longrightarrow> is_str (item_text i))"
  shows "\<exists>l'. scan_items B ts items l = Some l'"
  using assms
proof (induction items arbitrary: l)
  case Nil
  show ?case by simp
next
  case (Cons i items)
  show ?case
  proof (cases "is_text i")
    case False
    then show ?thesis using Cons by (simp add: scan_items_skip)
  next
    case True
    then obtain str where "item_text i = JStr str"
      using Cons.prems by (auto simp: is_str_def split: json.splits)
    then show ?thesis using Cons True by (simp add: scan_items_text)
  qed
qed

lemma scan_items_first_tool_use:
  assumes "\<forall>i\<in>set pre. \<not> is_tool_use i" "is_tool_use (JObj d)"
  shows "scan_items B ts (pre @ JObj d # post) l =
           (case scan_items B ts pre l of None \<Rightarrow> None | Some l' \<Rightarrow> on_tool_use B ts d l')"
  using assms
proof (induction pre arbitrary: l)
  case Nil
  then show ?case by (simp add: scan_items_tool_use)
next
  case (Cons i pre)
  show ?case
  proof (cases "is_text i")
    case False
    then show ?thesis using Cons by (simp add: scan_items_skip)
  next
    case True
    then show ?thesis using Cons
      by (simp add: scan_items_text split: json.splits)
  qed
qed

lemma entry_content_list_message:
  "entry_content e = JArr items \<Longrightarrow> \<exists>m. entry_message e = JObj m"
  by (auto simp: entry_content_def split: json.splits)

lemma finish_state:
  "l_state (if l_state l = ''unknown''
            then l\<lparr>l_state := (if l_has_question l then ''waiting_for_question''
                                 else ''task_complete'')\<rparr>
            else l) =
     (if l_state l = ''unknown''
      then (if l_has_question l then ''waiting_for_question'' else ''task_complete'')
      else l_state l)"
  by simp

lemma on_tool_use_ask:
  assumes "item_name (JObj d) = JStr ''AskUserQuestion''" "on_tool_use B ts d l = Some l'"
  shows "l_state l' = ''waiting_for_question''
       \<and> (\<exists>p. l_pending_approval l' = Some p \<and> ptype p = ''question''
              \<and> tool_name p = JStr ''AskUserQuestion'')"
  using assms
  by (auto simp: on_tool_use_def item_name_def Let_def split: json.splits)

lemma on_tool_use_ask_ex:
  assumes "item_name (JObj d) = JStr ''AskUserQuestion''" "is_dict (item_input (JObj d))"
  shows "\<exists>l'. on_tool_use B ts d l = Some l'"
  using assms
  by (auto simp: on_tool_use_def item_name_def item_input_def is_dict_def Let_def
      split: json.splits)

lemma add_session_waiting:
  "state s = ''waiting_for_question'' \<Longrightarrow>
   processing_count (add_session s pn r) = processing_count r
   \<and> waiting_count (add_session s pn r) = waiting_count r + 1"
  by (simp add: add_session_def Let_def)

lemma scan_file_cases:
  "scan_file B now pn pp f r = Inr r' \<Longrightarrow> mtime f = Some (now - age) \<Longrightarrow>
   r' = r \<or> (\<exists>s. parse_session B f pn pp age = Some s \<and> r' = add_session s pn r)"
  by (auto simp: scan_file_def Let_def split: if_splits option.splits)

subsection \<open>The example lines\<close>

lemma py_strip_newline:
  "s \<noteq> [] \<Longrightarrow> \<not> is_space (hd s) \<Longrightarrow> \<not> is_space (last s) \<Longrightarrow> py_strip (s @ [CHR 0x0A]) = s"
proof -
  assume a: "s \<noteq> []" "\<not> is_space (hd s)" "\<not> is_space (last s)"
  have n: "is_space (CHR 0x0A)" by (simp add: is_space_def)
  have "dropWhile is_space (s @ [CHR 0x0A]) = s @ [CHR 0x0A]"
    using a by (cases s) auto
  moreover have "dropWhile is_space (rev (s @ [CHR 0x0A])) = rev s"
    using a n by (cases s rule: rev_cases) auto
  ultimately show ?thesis by (simp add: py_strip_def)
qed

lemma strip_demo_line:
  "py_strip (bash_line @ [CHR 0x0A]) = bash_line"
  "py_strip (question_line @ [CHR 0x0A]) = question_line"
  "py_strip (done_line @ [CHR 0x0A]) = done_line"
  "py_strip (two_tools_line @ [CHR 0x0A]) = two_tools_line"
  "py_strip (ask_line @ [CHR 0x0A]) = ask_line"
  "py_strip (bare_line @ [CHR 0x0A]) = bare_line"
  "py_strip (user_a_line @ [CHR 0x0A]) = user_a_line"
  "py_strip (user_b_line @ [CHR 0x0A]) = user_b_line"
  "py_strip (user_none_line @ [CHR 0x0A]) = user_none_line"
  "py_strip (user_num_line @ [CHR 0x0A]) = user_num_line"
  by (rule py_strip_newline;
      simp add: bash_line_def question_line_def done_line_def two_tools_line_def
        ask_line_def bare_line_def user_a_line_def user_b_line_def user_none_line_def
        user_num_line_def is_space_def)+

lemma demo_loads_line:
  "demo_loads bash_line = Some (JObj bash_entry)"
  "demo_loads question_line = Some (JObj question_entry)"
  "demo_loads done_line = Some (JObj done_entry)"
  "demo_loads two_tools_line = Some (JObj two_tools_entry)"
  "demo_loads ask_line = Some (JObj ask_entry)"
  "demo_loads bare_line = Some (JObj bare_entry)"
  "demo_loads user_a_line = Some (JObj user_a_entry)"
  "demo_loads user_b_line = Some (JObj user_b_entry)"
  "demo_loads user_none_line = Some (JObj user_none_entry)"
  "demo_loads user_num_line = Some (JObj user_num_entry)"
  by (simp_all add: demo_loads_def bash_line_def question_line_def done_line_def
      two_tools_line_def ask_line_def bare_line_def user_a_line_def user_b_line_def
      user_none_line_def user_num_line_def)

lemma demo_last_entry:
  "loads demo_builtins (py_strip (last [bash_line @ [CHR 0x0A]])) = Some (JObj bash_entry)"
  "loads demo_builtins (py_strip (last [question_line @ [CHR 0x0A]])) = Some (JObj question_entry)"
  "loads demo_builtins (py_strip (last [done_line @ [CHR 0x0A]])) = Some (JObj done_entry)"
  "loads demo_builtins (py_strip (last [two_tools_line @ [CHR 0x0A]])) = Some (JObj two_tools_entry)"
  "loads demo_builtins (py_strip (last [ask_line @ [CHR 0x0A]])) = Some (JObj ask_entry)"
  "loads demo_builtins (py_strip (last [bare_line @ [CHR 0x0A]])) = Some (JObj bare_entry)"
  by (simp_all add: demo_builtins_def strip_demo_line demo_loads_line)

lemma demo_flines: "flines (demo_file line) = Some [line @ [CHR 0x0A]]"
  by (simp add: demo_file_def)

lemma demo_entry:
  "loads demo_builtins (py_strip (bash_line @ [CHR 0x0A])) = Some (JObj bash_entry)"
  "loads demo_builtins (py_strip (question_line @ [CHR 0x0A])) = Some (JObj question_entry)"
  "loads demo_builtins (py_strip (done_line @ [CHR 0x0A])) = Some (JObj done_entry)"
  "loads demo_builtins (py_strip (two_tools_line @ [CHR 0x0A])) = Some (JObj two_tools_entry)"
  "loads demo_builtins (py_strip (ask_line @ [CHR 0x0A])) = Some (JObj ask_entry)"
  "loads demo_builtins (py_strip (bare_line @ [CHR 0x0A])) = Some (JObj bare_entry)"
  "loads demo_builtins (py_strip (user_a_line @ [CHR 0x0A])) = Some (JObj user_a_entry)"
  "loads demo_builtins (py_strip (user_b_line @ [CHR 0x0A])) = Some (JObj user_b_entry)"
  "loads demo_builtins (py_strip (user_none_line @ [CHR 0x0A])) = Some (JObj user_none_entry)"
  "loads demo_builtins (py_strip (user_num_line @ [CHR 0x0A])) = Some (JObj user_num_entry)"
  by (simp_all add: demo_builtins_def strip_demo_line demo_loads_line)

lemma parse_two_tools:
  "map_option state
     (parse_session demo_builtins (demo_file two_tools_line) ''proj'' ''/Users/alice/proj'' 60)
   = Some ''waiting_for_approval''"
  by (simp add: parse_session_def demo_flines demo_entry determine_state_def
      two_tools_entry_def dict_get_default_def dict_get_def IDLE_THRESHOLD_SECONDS_def
      scan_items.simps on_tool_use_def init_locals_def Let_def)

section \<open>Classification of the last entry\<close>

text \<open>
  Claim C3. A session file is given whose last line parses as a JSON object, and the age
  is above 300 seconds. Then every snapshot \<^verbatim>\<open>_parse_session\<close> derives has the state
  \<open>idle\<close>, whatever the entry holds; and a snapshot is derived unless the entry has a
  \<^verbatim>\<open>message\<close> that is not an object (line 504 then raises and the file is skipped).
\<close>

theorem idle_override:
  assumes "300 < age_seconds"
    and "flines f = Some lines" and "lines \<noteq> []"
    and "loads B (py_strip (last lines)) = Some (JObj e)"
  shows "(\<forall>s. parse_session B f pn pp age_seconds = Some s \<longrightarrow> state s = ''idle'')
       \<and> (parse_session B f pn pp age_seconds = None \<longleftrightarrow> \<not> is_dict (entry_message e))"
proof -
  have d: "determine_state B age_seconds e = Some (init_locals\<lparr>l_state := ''idle''\<rparr>)"
    using assms(1) by (rule determine_state_idle)
  have a: "\<forall>s. parse_session B f pn pp age_seconds = Some s \<longrightarrow> state s = ''idle''"
  proof (intro allI impI)
    fix s
    assume "parse_session B f pn pp age_seconds = Some s"
    from parse_session_SomeD [OF this] obtain lines' e' l where
      "flines f = Some lines'" "loads B (py_strip (last lines')) = Some (JObj e')"
      "determine_state B age_seconds e' = Some l" "state s = l_state l"
      by blast
    then show "state s = ''idle''"
      using determine_state_idle [OF assms(1), of B e'] by auto
  qed
  have b: "parse_session B f pn pp age_seconds = None \<longleftrightarrow> \<not> is_dict (entry_message e)"
  proof (cases "is_dict (entry_message e)")
    case True
    then obtain m where "entry_message e = JObj m"
      by (auto simp: is_dict_def split: json.splits)
    from parse_session_SomeI [OF assms(2,3,4) d this] show ?thesis
      using True by auto
  next
    case False
    then show ?thesis
      using parse_session_bad_message [OF assms(2,3,4)] by simp
  qed
  show ?thesis using a b by blast
qed

theorem idle_override_witness:
  "(300::real) < 400
   \<and> loads demo_builtins (py_strip (last [bash_line @ [CHR 0x0A]])) = Some (JObj bash_entry)
   \<and> (\<exists>s. parse_session demo_builtins (demo_file bash_line) ''proj'' ''/Users/alice/proj'' 400
            = Some s \<and> state s = ''idle'')"
proof -
  have h1: "(300::real) < 400" by simp
  have h3: "[bash_line @ [CHR 0x0A]] \<noteq> []" by simp
  note t = idle_override [OF h1 demo_flines h3 demo_last_entry(1),
      of "''proj''" "''/Users/alice/proj''"]
  have "is_dict (entry_message bash_entry)"
    by (simp add: is_dict_def entry_message_def dict_get_default_def bash_entry_def)
  then obtain s where
    "parse_session demo_builtins (demo_file bash_line) ''proj'' ''/Users/alice/proj'' 400 = Some s"
    using t by auto
  then show ?thesis using t h1 demo_last_entry(1) by auto
qed

text \<open>
  Claim C4, as the code has it. The last entry is of type \<open>assistant\<close>, the age is at
  most 300 seconds, and the first \<^verbatim>\<open>tool_use\<close> item of the content list is named
  \<open>AskUserQuestion\<close>. Then every snapshot derived has the state
  \<open>waiting_for_question\<close> and a pending approval of type \<open>question\<close>; the file never
  increments \<^verbatim>\<open>processing_count\<close>; and a snapshot is derived when the texts before the
  item are strings and the input of the item is an object.
\<close>

theorem first_tool_use_ask_question:
  assumes "age_seconds \<le> 300"
    and "flines f = Some lines" and "lines \<noteq> []"
    and "loads B (py_strip (last lines)) = Some (JObj e)"
    and "map_of e ''type'' = Some (JStr ''assistant'')"
    and "entry_content e = JArr (pre @ item # post)"
    and "\<forall>i\<in>set pre. \<not> is_tool_use i"
    and "is_tool_use item"
    and "item_name item = JStr ''AskUserQuestion''"
  shows "(\<forall>s. parse_session B f pn pp age_seconds = Some s
            \<longrightarrow> state s = ''waiting_for_question''
              \<and> (\<exists>p. pending_approval s = Some p \<and> ptype p = ''question''
                     \<and> tool_name p = JStr ''AskUserQuestion''))
       \<and> (\<forall>now r r'. mtime f = Some (now - age_seconds)
                      \<and> scan_file B now pn pp f r = Inr r'
            \<longrightarrow> processing_count r' = processing_count r)
       \<and> ((\<forall>i\<in>set pre. is_text i \<longrightarrow> is_str (item_text i)) \<and> is_dict (item_input item)
            \<longrightarrow> (\<exists>s. parse_session B f pn pp age_seconds = Some s))"
proof -
  let ?ts = "dict_get e ''timestamp''"
  obtain d where d: "item = JObj d"
    using assms(8) by (cases item) (simp_all add: is_tool_use_def)
  obtain m where m: "entry_message e = JObj m"
    using entry_content_list_message [OF assms(6)] by blast
  note ds = determine_state_assistant [OF assms(1,5,6), of B]
  have si: "scan_items B ?ts (pre @ item # post) l =
              (case scan_items B ?ts pre l of None \<Rightarrow> None | Some l' \<Rightarrow> on_tool_use B ?ts d l')"
    for l
    using scan_items_first_tool_use [OF assms(7), of d B ?ts post l] assms(8) d by simp
  have a: "state s = ''waiting_for_question''
           \<and> (\<exists>p. pending_approval s = Some p \<and> ptype p = ''question''
                  \<and> tool_name p = JStr ''AskUserQuestion'')"
    if ps: "parse_session B f pn pp age_seconds = Some s" for s
  proof -
    from parse_session_SomeD [OF ps] obtain l where
      l: "determine_state B age_seconds e = Some l" "state s = l_state l"
         "pending_approval s = l_pending_approval l"
      using assms(2,4) by auto
    then obtain l2 where l2: "scan_items B ?ts (pre @ item # post) init_locals = Some l2"
      and ll: "l = (if l_state l2 = ''unknown''
                   then l2\<lparr>l_state := (if l_has_question l2 then ''waiting_for_question''
                                         else ''task_complete'')\<rparr>
                   else l2)"
      using ds by (auto split: option.splits)
    obtain l1 where "on_tool_use B ?ts d l1 = Some l2"
      using l2 si [of init_locals] by (auto split: option.splits)
    from on_tool_use_ask [OF _ this] have
      "l_state l2 = ''waiting_for_question''"
      "\<exists>p. l_pending_approval l2 = Some p \<and> ptype p = ''question''
           \<and> tool_name p = JStr ''AskUserQuestion''"
      using assms(9) d by simp_all
    then show ?thesis using l(2,3) ll by simp
  qed
  have b: "processing_count r' = processing_count r"
    if "mtime f = Some (now - age_seconds)" "scan_file B now pn pp f r = Inr r'" for now r r'
  proof -
    from scan_file_cases [OF that(2,1)] show ?thesis
      using a add_session_waiting by auto
  qed
  have c: "\<exists>s. parse_session B f pn pp age_seconds = Some s"
    if ok: "\<forall>i\<in>set pre. is_text i \<longrightarrow> is_str (item_text i)" and inp: "is_dict (item_input item)"
  proof -
    have "\<forall>i\<in>set pre. \<not> is_tool_use i \<and> (is_text i \<longrightarrow> is_str (item_text i))"
      using assms(7) ok by blast
    then obtain l1 where l1: "scan_items B ?ts pre init_locals = Some l1"
      using scan_items_no_tool_ex by blast
    obtain l2 where "on_tool_use B ?ts d l1 = Some l2"
      using on_tool_use_ask_ex [of d B ?ts l1] assms(9) inp d by auto
    then have "scan_items B ?ts (pre @ item # post) init_locals = Some l2"
      using si [of init_locals] l1 by simp
    then obtain l where "determine_state B age_seconds e = Some l"
      using ds by simp
    from parse_session_SomeI [OF assms(2,3,4) this m, of pn pp] show ?thesis by blast
  qed
  show ?thesis using a b c by blast
qed

theorem first_tool_use_ask_question_witness:
  "(60::real) \<le> 300
   \<and> entry_content ask_entry =
       JArr ([JObj [(''type'', JStr ''text''), (''text'', JStr ''One moment.'')]]
             @ JObj [(''type'', JStr ''tool_use''), (''name'', JStr ''AskUserQuestion''),
                     (''input'', JObj [(''questions'', JArr [])])] # [])
   \<and> (\<exists>s. parse_session demo_builtins (demo_file ask_line) ''proj'' ''/Users/alice/proj'' 60
            = Some s
          \<and> state s = ''waiting_for_question''
          \<and> (\<exists>p. pending_approval s = Some p \<and> ptype p = ''question''))"
proof -
  let ?t = "JObj [(''type'', JStr ''text''), (''text'', JStr ''One moment.'')]"
  let ?a = "JObj [(''type'', JStr ''tool_use''), (''name'', JStr ''AskUserQuestion''),
                  (''input'', JObj [(''questions'', JArr [])])]"
  have h1: "(60::real) \<le> 300" by simp
  have h3: "[ask_line @ [CHR 0x0A]] \<noteq> []" by simp
  have h5: "map_of ask_entry ''type'' = Some (JStr ''assistant'')"
    by (simp add: ask_entry_def)
  have h6: "entry_content ask_entry = JArr ([?t] @ ?a # [])"
    by (simp add: entry_content_def entry_message_def dict_get_default_def ask_entry_def)
  have h7: "\<forall>i\<in>set [?t]. \<not> is_tool_use i"
    by (simp add: is_tool_use_def dict_get_def)
  have h8: "is_tool_use ?a" by (simp add: is_tool_use_def dict_get_def)
  have h9: "item_name ?a = JStr ''AskUserQuestion''"
    by (simp add: item_name_def dict_get_default_def)
  note t = first_tool_use_ask_question [OF h1 demo_flines h3 demo_last_entry(5) h5 h6 h7 h8 h9,
      of "''proj''" "''/Users/alice/proj''"]
  have "\<forall>i\<in>set [?t]. is_text i \<longrightarrow> is_str (item_text i)"
    by (simp add: item_text_def dict_get_default_def is_str_def)
  moreover have "is_dict (item_input ?a)"
    by (simp add: item_input_def dict_get_default_def is_dict_def)
  ultimately obtain s where
    s: "parse_session demo_builtins (demo_file ask_line) ''proj'' ''/Users/alice/proj'' 60 = Some s"
    using t by blast
  then have "state s = ''waiting_for_question''
             \<and> (\<exists>p. pending_approval s = Some p \<and> ptype p = ''question'')"
    using t by blast
  then show ?thesis using h1 h6 s by blast
qed

text \<open>
  The loop stops at the first \<^verbatim>\<open>tool_use\<close> item (line 490): a content list that has
  an \<open>AskUserQuestion\<close> item after a \<open>Bash\<close> item is classified
  \<open>waiting_for_approval\<close>.
\<close>

theorem ask_question_not_first_counterexample:
  "entry_content two_tools_entry =
     JArr [JObj [(''type'', JStr ''tool_use''), (''name'', JStr ''Bash''), (''input'', JObj [])],
           JObj [(''type'', JStr ''tool_use''), (''name'', JStr ''AskUserQuestion''),
                 (''input'', JObj [])]]
   \<and> is_tool_use (JObj [(''type'', JStr ''tool_use''), (''name'', JStr ''AskUserQuestion''),
                         (''input'', JObj [])])
   \<and> item_name (JObj [(''type'', JStr ''tool_use''), (''name'', JStr ''AskUserQuestion''),
                        (''input'', JObj [])]) = JStr ''AskUserQuestion''
   \<and> map_of two_tools_entry ''type'' = Some (JStr ''assistant'')
   \<and> loads demo_builtins (py_strip (two_tools_line @ [CHR 0x0A]))
       = Some (JObj two_tools_entry)
   \<and> map_option state
       (parse_session demo_builtins (demo_file two_tools_line) ''proj'' ''/Users/alice/proj'' 60)
     = Some ''waiting_for_approval''
   \<and> map_option state
       (parse_session demo_builtins (demo_file two_tools_line) ''proj'' ''/Users/alice/proj'' 60)
     \<noteq> Some ''waiting_for_question''"
proof -
  have "entry_content two_tools_entry =
     JArr [JObj [(''type'', JStr ''tool_use''), (''name'', JStr ''Bash''), (''input'', JObj [])],
           JObj [(''type'', JStr ''tool_use''), (''name'', JStr ''AskUserQuestion''),
                 (''input'', JObj [])]]"
    by (simp add: entry_content_def entry_message_def dict_get_default_def two_tools_entry_def)
  moreover have "is_tool_use (JObj [(''type'', JStr ''tool_use''),
      (''name'', JStr ''AskUserQuestion''), (''input'', JObj [])])"
    by (simp add: is_tool_use_def dict_get_def)
  moreover have "item_name (JObj [(''type'', JStr ''tool_use''),
      (''name'', JStr ''AskUserQuestion''), (''input'', JObj [])]) = JStr ''AskUserQuestion''"
    by (simp add: item_name_def dict_get_default_def)
  moreover have "map_of two_tools_entry ''type'' = Some (JStr ''assistant'')"
    by (simp add: two_tools_entry_def)
  ultimately show ?thesis
    using parse_two_tools demo_entry(4) by auto
qed

text \<open>
  Claim C5. The last entry is of type \<open>assistant\<close> and the age is at most 300 seconds.
  If the only content item is the text \<open>Done. Anything else?\<close> the state is
  \<open>waiting_for_question\<close>; if it is the text \<open>Done.\<close> the state is \<open>task_complete\<close>.
  In general, when no content item is a \<^verbatim>\<open>tool_use\<close>, the state of a derived snapshot
  is \<open>waiting_for_question\<close> exactly when the stripped text of some text item ends with
  a question mark, and \<open>task_complete\<close> otherwise; a snapshot is derived when every
  text is a string.
\<close>

theorem text_only_state:
  assumes "age_seconds \<le> 300"
    and "flines f = Some lines" and "lines \<noteq> []"
    and "loads B (py_strip (last lines)) = Some (JObj e)"
    and "map_of e ''type'' = Some (JStr ''assistant'')"
    and "entry_content e = JArr items"
  shows "(\<forall>d. items = [JObj d] \<and> dict_get d ''type'' = JStr ''text''
            \<and> map_of d ''text'' = Some (JStr ''Done. Anything else?'')
          \<longrightarrow> (\<exists>s. parse_session B f pn pp age_seconds = Some s
                  \<and> state s = ''waiting_for_question''))
       \<and> (\<forall>d. items = [JObj d] \<and> dict_get d ''type'' = JStr ''text''
            \<and> map_of d ''text'' = Some (JStr ''Done.'')
          \<longrightarrow> (\<exists>s. parse_session B f pn pp age_seconds = Some s
                  \<and> state s = ''task_complete''))
       \<and> ((\<forall>i\<in>set items. \<not> is_tool_use i)
          \<longrightarrow> (\<forall>s. parse_session B f pn pp age_seconds = Some s
                  \<longrightarrow> state s = (if \<exists>i\<in>set items. asks_question i
                                 then ''waiting_for_question'' else ''task_complete'')))
       \<and> ((\<forall>i\<in>set items. \<not> is_tool_use i \<and> (is_text i \<longrightarrow> is_str (item_text i)))
          \<longrightarrow> (\<exists>s. parse_session B f pn pp age_seconds = Some s))"
proof -
  let ?ts = "dict_get e ''timestamp''"
  obtain m where m: "entry_message e = JObj m"
    using entry_content_list_message [OF assms(6)] by blast
  note ds = determine_state_assistant [OF assms(1,5,6), of B]
  have general: "state s = (if \<exists>i\<in>set items. asks_question i
                            then ''waiting_for_question'' else ''task_complete'')"
    if nt: "\<forall>i\<in>set items. \<not> is_tool_use i"
      and ps: "parse_session B f pn pp age_seconds = Some s" for s
  proof -
    from parse_session_SomeD [OF ps] obtain l where
      l: "determine_state B age_seconds e = Some l" "state s = l_state l"
      using assms(2,4) by auto
    then obtain l' where l': "scan_items B ?ts items init_locals = Some l'"
      and ll: "l = (if l_state l' = ''unknown''
                   then l'\<lparr>l_state := (if l_has_question l' then ''waiting_for_question''
                                         else ''task_complete'')\<rparr>
                   else l')"
      using ds by (auto split: option.splits)
    from scan_items_no_tool [OF nt l'] have
      "l_state l' = ''unknown''" "l_has_question l' \<longleftrightarrow> (\<exists>i\<in>set items. asks_question i)"
      by (simp_all add: init_locals_def)
    then show ?thesis using l(2) ll by simp
  qed
  have exists: "\<exists>s. parse_session B f pn pp age_seconds = Some s"
    if ok: "\<forall>i\<in>set items. \<not> is_tool_use i \<and> (is_text i \<longrightarrow> is_str (item_text i))"
  proof -
    obtain l' where "scan_items B ?ts items init_locals = Some l'"
      using scan_items_no_tool_ex [OF ok] by blast
    then obtain l where "determine_state B age_seconds e = Some l"
      using ds by simp
    from parse_session_SomeI [OF assms(2,3,4) this m, of pn pp] show ?thesis by blast
  qed
  have single: "\<exists>s. parse_session B f pn pp age_seconds = Some s
                   \<and> state s = (if py_endswith (py_strip t) ''?''
                                then ''waiting_for_question'' else ''task_complete'')"
    if it: "items = [JObj d]" and ty: "dict_get d ''type'' = JStr ''text''"
      and tx: "map_of d ''text'' = Some (JStr t)" for d t
  proof -
    have nt: "\<not> is_tool_use (JObj d)" using ty by (simp add: is_tool_use_def)
    have tt: "is_text (JObj d)" using ty by (simp add: is_text_def)
    have itx: "item_text (JObj d) = JStr t"
      using tx by (simp add: item_text_def dict_get_default_def)
    have ok: "\<forall>i\<in>set items. \<not> is_tool_use i \<and> (is_text i \<longrightarrow> is_str (item_text i))"
      using it nt itx by (simp add: is_str_def)
    then obtain s where s: "parse_session B f pn pp age_seconds = Some s"
      using exists by blast
    have "\<forall>i\<in>set items. \<not> is_tool_use i" using ok by blast
    from general [OF this s] have
      "state s = (if asks_question (JObj d) then ''waiting_for_question'' else ''task_complete'')"
      using it by simp
    moreover have "asks_question (JObj d) \<longleftrightarrow> py_endswith (py_strip t) ''?''"
      using tt itx by (simp add: asks_question_def)
    ultimately show ?thesis using s by simp
  qed
  have q1: "py_endswith (py_strip ''Done. Anything else?'') ''?''"
    by (simp add: py_endswith_def py_strip_def is_space_def)
  have q2: "\<not> py_endswith (py_strip ''Done.'') ''?''"
    by (simp add: py_endswith_def py_strip_def is_space_def)
  have c1: "\<forall>d. items = [JObj d] \<and> dict_get d ''type'' = JStr ''text''
            \<and> map_of d ''text'' = Some (JStr ''Done. Anything else?'')
          \<longrightarrow> (\<exists>s. parse_session B f pn pp age_seconds = Some s
                  \<and> state s = ''waiting_for_question'')"
    using single q1 by (metis (full_types))
  have c2: "\<forall>d. items = [JObj d] \<and> dict_get d ''type'' = JStr ''text''
            \<and> map_of d ''text'' = Some (JStr ''Done.'')
          \<longrightarrow> (\<exists>s. parse_session B f pn pp age_seconds = Some s
                  \<and> state s = ''task_complete'')"
    using single q2 by (metis (full_types))
  show ?thesis using c1 c2 general exists by blast
qed

theorem text_only_state_witness:
  "(60::real) \<le> 300
   \<and> (\<exists>s. parse_session demo_builtins (demo_file question_line) ''proj'' ''/Users/alice/proj'' 60
            = Some s \<and> state s = ''waiting_for_question'')
   \<and> (\<exists>s. parse_session demo_builtins (demo_file done_line) ''proj'' ''/Users/alice/proj'' 60
            = Some s \<and> state s = ''task_complete'')"
proof -
  have h1: "(60::real) \<le> 300" by simp
  have h3: "[l @ [CHR 0x0A]] \<noteq> []" for l :: string by simp
  let ?q = "[(''type'', JStr ''text''), (''text'', JStr ''Done. Anything else?'')]"
  let ?d = "[(''type'', JStr ''text''), (''text'', JStr ''Done.'')]"
  have q5: "map_of question_entry ''type'' = Some (JStr ''assistant'')"
    by (simp add: question_entry_def)
  have q6: "entry_content question_entry = JArr [JObj ?q]"
    by (simp add: entry_content_def entry_message_def dict_get_default_def question_entry_def)
  have d5: "map_of done_entry ''type'' = Some (JStr ''assistant'')"
    by (simp add: done_entry_def)
  have d6: "entry_content done_entry = JArr [JObj ?d]"
    by (simp add: entry_content_def entry_message_def dict_get_default_def done_entry_def)
  have qt: "dict_get ?q ''type'' = JStr ''text''" "map_of ?q ''text'' = Some (JStr ''Done. Anything else?'')"
    by (simp_all add: dict_get_def)
  have dt: "dict_get ?d ''type'' = JStr ''text''" "map_of ?d ''text'' = Some (JStr ''Done.'')"
    by (simp_all add: dict_get_def)
  from text_only_state [OF h1 demo_flines h3 demo_last_entry(2) q5 q6,
      of "''proj''" "''/Users/alice/proj''"] qt
  have a: "\<exists>s. parse_session demo_builtins (demo_file question_line) ''proj'' ''/Users/alice/proj'' 60
            = Some s \<and> state s = ''waiting_for_question''"
    by blast
  from text_only_state [OF h1 demo_flines h3 demo_last_entry(3) d5 d6,
      of "''proj''" "''/Users/alice/proj''"] dt
  have b: "\<exists>s. parse_session demo_builtins (demo_file done_line) ''proj'' ''/Users/alice/proj'' 60
            = Some s \<and> state s = ''task_complete''"
    by blast
  show ?thesis using h1 a b by blast
qed

text \<open>
  Claim C10. The last entry is of type \<open>assistant\<close>, the age is at most 300 seconds, and
  the content (with the defaults of an absent \<^verbatim>\<open>message\<close> or \<^verbatim>\<open>content\<close>) is a
  list with no dict item of type \<^verbatim>\<open>tool_use\<close> or \<^verbatim>\<open>text\<close>. Then a snapshot is
  derived, with state \<open>task_complete\<close>, an empty preview and no pending approval.
\<close>

theorem unrecognized_content_task_complete:
  assumes "age_seconds \<le> 300"
    and "flines f = Some lines" and "lines \<noteq> []"
    and "loads B (py_strip (last lines)) = Some (JObj e)"
    and "map_of e ''type'' = Some (JStr ''assistant'')"
    and "entry_content e = JArr items"
    and "\<forall>i\<in>set items. \<not> is_tool_use i \<and> \<not> is_text i"
  shows "\<exists>s. parse_session B f pn pp age_seconds = Some s
           \<and> state s = ''task_complete''
           \<and> last_message_preview s = []
           \<and> pending_approval s = None"
proof -
  have "scan_items B (dict_get e ''timestamp'') items init_locals = Some init_locals"
    using assms(7) by (rule scan_items_ignorable)
  then have d: "determine_state B age_seconds e = Some (init_locals\<lparr>l_state := ''task_complete''\<rparr>)"
    using determine_state_assistant [OF assms(1,5,6), of B] by (simp add: init_locals_def)
  obtain m where "entry_message e = JObj m"
    using entry_content_list_message [OF assms(6)] by blast
  from parse_session_SomeI [OF assms(2,3,4) d this, of pn pp] show ?thesis
    by (auto simp: init_locals_def)
qed

theorem unrecognized_content_task_complete_witness:
  "(60::real) \<le> 300
   \<and> map_of bare_entry ''type'' = Some (JStr ''assistant'')
   \<and> entry_content bare_entry = JArr []
   \<and> (\<exists>s. parse_session demo_builtins (demo_file bare_line) ''proj'' ''/Users/alice/proj'' 60
            = Some s
          \<and> state s = ''task_complete'' \<and> last_message_preview s = []
          \<and> pending_approval s = None)"
proof -
  have h1: "(60::real) \<le> 300" by simp
  have h3: "[bare_line @ [CHR 0x0A]] \<noteq> []" by simp
  have h5: "map_of bare_entry ''type'' = Some (JStr ''assistant'')"
    by (simp add: bare_entry_def)
  have h6: "entry_content bare_entry = JArr []"
    by (simp add: entry_content_def entry_message_def dict_get_default_def bare_entry_def)
  have h7: "\<forall>i\<in>set []. \<not> is_tool_use i \<and> \<not> is_text i" by simp
  from unrecognized_content_task_complete [OF h1 demo_flines h3 demo_last_entry(6) h5 h6 h7,
      of "''proj''" "''/Users/alice/proj''"]
  show ?thesis using h1 h5 h6 by simp
qed

section \<open>Facts about \<^verbatim>\<open>scan_active_sessions\<close>\<close>

subsection \<open>The sort\<close>

lemma sort_key_string:
  "activity_absent_or_str x \<Longrightarrow> sort_key x = JStr (activity_string x)"
  by (cases "last_activity x")
     (auto simp: activity_absent_or_str_def sort_key_def activity_string_def is_str_def)

lemma insert_desc_Cons:
  "insert_desc x (y # ys) = Inr r \<Longrightarrow>
   (py_lt (sort_key x) (sort_key y) = Inr False \<and> r = x # y # ys)
   \<or> (py_lt (sort_key x) (sort_key y) = Inr True
        \<and> (\<exists>r'. insert_desc x ys = Inr r' \<and> r = y # r'))"
  by (cases "py_lt (sort_key x) (sort_key y)"; cases "insert_desc x ys")
     (simp_all split: bool.splits)

declare insert_desc.simps(2) [simp del]

lemma insert_desc_set:
  "insert_desc x ys = Inr r \<Longrightarrow> set r = insert x (set ys)"
proof (induction ys arbitrary: r)
  case Nil
  then show ?case by auto
next
  case (Cons y ys)
  from insert_desc_Cons [OF Cons.prems] show ?case
  proof
    assume "py_lt (sort_key x) (sort_key y) = Inr False \<and> r = x # y # ys"
    then show ?thesis by auto
  next
    assume "py_lt (sort_key x) (sort_key y) = Inr True
        \<and> (\<exists>r'. insert_desc x ys = Inr r' \<and> r = y # r')"
    then obtain r' where "insert_desc x ys = Inr r'" "r = y # r'" by blast
    then show ?thesis using Cons.IH by auto
  qed
qed

lemma sort_sessions_set:
  "sort_sessions xs = Inr r \<Longrightarrow> set r = set xs"
proof (induction xs arbitrary: r)
  case Nil
  then show ?case by simp
next
  case (Cons x xs)
  then obtain r' where "sort_sessions xs = Inr r'" "insert_desc x r' = Inr r"
    by (auto split: sum.splits)
  then show ?case using Cons.IH insert_desc_set by auto
qed

lemma insert_desc_sorted:
  assumes "insert_desc x ys = Inr r"
    and "activity_absent_or_str x" "\<forall>y\<in>set ys. activity_absent_or_str y"
    and "sorted_wrt (\<lambda>a b. activity_string b \<le> activity_string a) ys"
  shows "sorted_wrt (\<lambda>a b. activity_string b \<le> activity_string a) r"
  using assms
proof (induction ys arbitrary: r)
  case Nil
  then show ?case by auto
next
  case (Cons y ys)
  have lt: "py_lt (sort_key x) (sort_key y) = Inr (activity_string x < activity_string y)"
    using Cons.prems(2,3) by (simp add: sort_key_string)
  from insert_desc_Cons [OF Cons.prems(1)] show ?case
  proof
    assume a: "py_lt (sort_key x) (sort_key y) = Inr False \<and> r = x # y # ys"
    then have "\<not> activity_string x < activity_string y" using lt by simp
    then have le: "activity_string y \<le> activity_string x" by (simp add: not_less)
    have "\<forall>z\<in>set ys. activity_string z \<le> activity_string y"
      using Cons.prems(4) by simp
    then have "\<forall>z\<in>set ys. activity_string z \<le> activity_string x"
      using le by (meson order_trans)
    then show ?thesis using a le Cons.prems(4) by simp
  next
    assume "py_lt (sort_key x) (sort_key y) = Inr True
        \<and> (\<exists>r'. insert_desc x ys = Inr r' \<and> r = y # r')"
    then obtain r' where r': "insert_desc x ys = Inr r'" "r = y # r'"
      and True: "activity_string x < activity_string y"
      using lt by auto
    have "sorted_wrt (\<lambda>a b. activity_string b \<le> activity_string a) r'"
      using Cons.IH [OF r'(1)] Cons.prems by simp
    moreover have "\<forall>z\<in>set r'. activity_string z \<le> activity_string y"
      using insert_desc_set [OF r'(1)] Cons.prems(4) True by auto
    ultimately show ?thesis using r'(2) by simp
  qed
qed

lemma sort_sessions_sorted:
  assumes "sort_sessions xs = Inr r" "\<forall>x\<in>set xs. activity_absent_or_str x"
  shows "sorted_wrt (\<lambda>a b. activity_string b \<le> activity_string a) r"
  using assms
proof (induction xs arbitrary: r)
  case Nil
  then show ?case by simp
next
  case (Cons x xs)
  then obtain r' where r': "sort_sessions xs = Inr r'" "insert_desc x r' = Inr r"
    by (auto split: sum.splits)
  have "sorted_wrt (\<lambda>a b. activity_string b \<le> activity_string a) r'"
    using Cons.IH [OF r'(1)] Cons.prems(2) by simp
  moreover have "\<forall>y\<in>set r'. activity_absent_or_str y"
    using sort_sessions_set [OF r'(1)] Cons.prems(2) by simp
  ultimately show ?case
    using insert_desc_sorted [OF r'(2)] Cons.prems(2) by simp
qed

lemma scan_sorted_from:
  assumes "scan_active_sessions B rootd ts now = Inr r"
  shows "\<exists>xs. sort_sessions xs = Inr (active_sessions r)"
proof (cases rootd)
  case RootMissing
  then have "sort_sessions [] = Inr (active_sessions r)"
    using assms by (auto simp: scan_active_sessions_def empty_report_def)
  then show ?thesis by blast
next
  case RootUnlistable
  then show ?thesis using assms by (simp add: scan_active_sessions_def)
next
  case (RootEntries ds)
  then show ?thesis using assms
    by (auto simp: scan_active_sessions_def split: sum.splits)
qed

subsection \<open>The time stamp of the report\<close>

lemma add_session_timestamp:
  "add_session s pn (r\<lparr>timestamp := t\<rparr>) = (add_session s pn r)\<lparr>timestamp := t\<rparr>"
  by (simp add: add_session_def Let_def)

lemma scan_file_timestamp:
  "scan_file B now pn pp f (r\<lparr>timestamp := t\<rparr>) =
     map_sum id (\<lambda>r'. r'\<lparr>timestamp := t\<rparr>) (scan_file B now pn pp f r)"
  by (simp add: scan_file_def Let_def add_session_timestamp split: option.splits)

lemma scan_files_timestamp:
  "scan_files B now pn pp fs (r\<lparr>timestamp := t\<rparr>) =
     map_sum id (\<lambda>r'. r'\<lparr>timestamp := t\<rparr>) (scan_files B now pn pp fs r)"
proof (induction fs arbitrary: r)
  case Nil
  show ?case by simp
next
  case (Cons f fs)
  show ?case
    by (cases "scan_file B now pn pp f r") (simp_all add: scan_file_timestamp Cons.IH)
qed

lemma scan_dir_timestamp:
  "scan_dir B now d (r\<lparr>timestamp := t\<rparr>) =
     map_sum id (\<lambda>r'. r'\<lparr>timestamp := t\<rparr>) (scan_dir B now d r)"
  by (simp add: scan_dir_def scan_files_timestamp split: prod.splits)

lemma scan_dirs_timestamp:
  "scan_dirs B now ds (r\<lparr>timestamp := t\<rparr>) =
     map_sum id (\<lambda>r'. r'\<lparr>timestamp := t\<rparr>) (scan_dirs B now ds r)"
proof (induction ds arbitrary: r)
  case Nil
  show ?case by simp
next
  case (Cons d ds)
  show ?case
    by (cases "scan_dir B now d r") (simp_all add: scan_dir_timestamp Cons.IH)
qed

lemma scan_timestamp:
  "scan_active_sessions B rootd ts now =
     map_sum id (\<lambda>r. r\<lparr>timestamp := ts\<rparr>) (scan_active_sessions B rootd [] now)"
proof (cases rootd)
  case RootMissing
  then show ?thesis by (simp add: scan_active_sessions_def empty_report_def)
next
  case RootUnlistable
  then show ?thesis by (simp add: scan_active_sessions_def)
next
  case (RootEntries ds)
  have e: "empty_report ts = (empty_report [])\<lparr>timestamp := ts\<rparr>"
    by (simp add: empty_report_def)
  show ?thesis
  proof (cases "scan_dirs B now ds (empty_report [])")
    case (Inl err)
    then show ?thesis using RootEntries
      by (simp add: scan_active_sessions_def e scan_dirs_timestamp)
  next
    case (Inr r)
    then show ?thesis using RootEntries
      by (cases "sort_sessions (active_sessions r)")
         (simp_all add: scan_active_sessions_def e scan_dirs_timestamp)
  qed
qed

subsection \<open>Files that leave the result unchanged\<close>

lemma scan_files_append:
  "scan_files B now pn pp (xs @ ys) r =
     (case scan_files B now pn pp xs r of
        Inl e \<Rightarrow> Inl e
      | Inr r' \<Rightarrow> scan_files B now pn pp ys r')"
proof (induction xs arbitrary: r)
  case Nil
  show ?case by simp
next
  case (Cons x xs)
  show ?case by (cases "scan_file B now pn pp x r") (simp_all add: Cons.IH)
qed

lemma scan_dirs_append:
  "scan_dirs B now (xs @ ys) r =
     (case scan_dirs B now xs r of
        Inl e \<Rightarrow> Inl e
      | Inr r' \<Rightarrow> scan_dirs B now ys r')"
proof (induction xs arbitrary: r)
  case Nil
  show ?case by simp
next
  case (Cons x xs)
  show ?case by (cases "scan_dir B now x r") (simp_all add: Cons.IH)
qed

lemma scan_file_old:
  assumes "mtime f = Some m" "now - m > 600"
  shows "scan_file B now pn pp f r = Inr r"
  using assms by (simp add: scan_file_def ACTIVE_THRESHOLD_SECONDS_def Let_def)

lemma scan_files_drop:
  assumes "\<And>r. scan_file B now pn pp f r = Inr r"
  shows "scan_files B now pn pp (glob_jsonl (xs @ f # ys)) r =
         scan_files B now pn pp (glob_jsonl (xs @ ys)) r"
proof -
  have "scan_files B now pn pp (glob_jsonl [f]) r' = Inr r'" for r'
    using assms by (simp add: glob_jsonl_def)
  then have "scan_files B now pn pp (glob_jsonl [f] @ glob_jsonl ys) r' =
             scan_files B now pn pp (glob_jsonl ys) r'" for r'
    by (simp add: scan_files_append)
  moreover have "glob_jsonl (xs @ f # ys) = glob_jsonl xs @ glob_jsonl [f] @ glob_jsonl ys"
    by (simp add: glob_jsonl_def)
  moreover have "glob_jsonl (xs @ ys) = glob_jsonl xs @ glob_jsonl ys"
    by (simp add: glob_jsonl_def)
  ultimately show ?thesis
    by (simp add: scan_files_append split: sum.splits)
qed

lemma scan_dir_drop:
  assumes "\<And>pn pp r. scan_file B now pn pp f r = Inr r"
  shows "scan_dir B now (d\<lparr>dfiles := xs @ f # ys\<rparr>) r =
         scan_dir B now (d\<lparr>dfiles := xs @ ys\<rparr>) r"
  using scan_files_drop [where B = B and now = now and f = f and xs = xs and ys = ys and r = r,
      OF assms]
  by (simp add: scan_dir_def split: prod.splits)

lemma scan_dirs_drop:
  assumes "\<And>pn pp r. scan_file B now pn pp f r = Inr r"
  shows "scan_dirs B now (ds1 @ d\<lparr>dfiles := xs @ f # ys\<rparr> # ds2) r =
         scan_dirs B now (ds1 @ d\<lparr>dfiles := xs @ ys\<rparr> # ds2) r"
proof -
  have one: "scan_dir B now (d\<lparr>dfiles := xs @ f # ys\<rparr>) r' =
             scan_dir B now (d\<lparr>dfiles := xs @ ys\<rparr>) r'" for r'
    using assms by (rule scan_dir_drop)
  show ?thesis
    by (cases "scan_dirs B now ds1 r") (simp_all add: scan_dirs_append one)
qed

lemma scan_drop:
  assumes "\<And>pn pp r. scan_file B now pn pp f r = Inr r"
  shows "scan_active_sessions B (RootEntries (ds1 @ d\<lparr>dfiles := xs @ f # ys\<rparr> # ds2)) ts now =
         scan_active_sessions B (RootEntries (ds1 @ d\<lparr>dfiles := xs @ ys\<rparr> # ds2)) ts now"
proof -
  have "scan_dirs B now (ds1 @ d\<lparr>dfiles := xs @ f # ys\<rparr> # ds2) r =
        scan_dirs B now (ds1 @ d\<lparr>dfiles := xs @ ys\<rparr> # ds2) r" for r
    using assms by (rule scan_dirs_drop)
  then show ?thesis by (simp add: scan_active_sessions_def)
qed

subsection \<open>The example roots\<close>

lemma derive_alice_proj:
  "derive_project ''-Users-alice-proj'' = (''proj'', ''/Users/alice/proj'')"
  by (simp add: derive_project_def py_startswith_def)

lemma determine_state_bash:
  "determine_state B 60 bash_entry =
     Some \<lparr>l_state = ''waiting_for_approval'',
           l_pending_approval = Some \<lparr>ptype = ''tool_use'', tool_name = JStr ''Bash'',
                                      description = JStr ''ls -la''\<rparr>,
           l_last_tool = Some \<lparr>tname = JStr ''Bash'', ttimestamp = JNull\<rparr>,
           l_last_message_preview = [], l_has_question = False\<rparr>"
  by (simp add: determine_state_def IDLE_THRESHOLD_SECONDS_def bash_entry_def
      dict_get_default_def dict_get_def scan_items.simps on_tool_use_def init_locals_def Let_def)

lemmas scan_eval =
  scan_active_sessions_def project_dir_def session_file_def
  scan_dir_def derive_alice_proj glob_jsonl_def py_endswith_def py_startswith_def
  scan_file_def ACTIVE_THRESHOLD_SECONDS_def parse_session_def demo_entry
  determine_state_def IDLE_THRESHOLD_SECONDS_def user_a_entry_def user_b_entry_def
  user_none_entry_def user_num_entry_def
  dict_get_default_def dict_get_def init_locals_def add_session_def empty_report_def
  Let_def insert_desc.simps sort_key_def py_stem_def py_int_def

lemma scan_three_sessions:
  "map_sum id (\<lambda>r. map last_activity (active_sessions r))
     (scan_active_sessions demo_builtins three_sessions_root ts 1000)
   = Inr [JStr ''2024-05-01T11:00:00Z'', JStr ''2024-05-01T10:00:00Z'', JNull]"
  by (simp add: three_sessions_root_def scan_eval)

lemma scan_mixed:
  "scan_active_sessions demo_builtins mixed_root ts 1000 = Inl TypeError"
  by (simp add: mixed_root_def scan_eval)

lemma scan_single_a:
  "map_sum id (\<lambda>r. map last_activity (active_sessions r))
     (scan_active_sessions demo_builtins
        (RootEntries [project_dir [session_file ''a.jsonl'' 940 user_a_line]]) ts 1000)
   = Inr [JStr ''2024-05-01T10:00:00Z'']"
  by (simp add: scan_eval)

lemma scan_single_num:
  "map_sum id (\<lambda>r. map last_activity (active_sessions r))
     (scan_active_sessions demo_builtins
        (RootEntries [project_dir [session_file ''i.jsonl'' 950 user_num_line]]) ts 1000)
   = Inr [JInt 5]"
  by (simp add: scan_eval)

section \<open>The report\<close>

text \<open>
  Claim C1. The root holds one project directory \<^verbatim>\<open>-Users-alice-proj\<close> with one log
  file (its name ends in \<^verbatim>\<open>.jsonl\<close> and does not start with \<^verbatim>\<open>agent-\<close>), modified
  60 seconds before the scan, whose last line is, up to surrounding white space, the
  line \<open>bash_line\<close>, which \<^verbatim>\<open>json.loads\<close> parses to \<open>bash_entry\<close>. Then the scan
  returns a report with exactly one snapshot, of project name \<open>proj\<close>, project path
  \<open>/Users/alice/proj\<close>, state \<open>waiting_for_approval\<close> and a pending approval for the
  tool \<open>Bash\<close>, with \<^verbatim>\<open>waiting_count\<close> 1 and \<^verbatim>\<open>projects_with_waiting\<close> \<open>[proj]\<close>.
\<close>

theorem bash_scenario:
  assumes "loads B bash_line = Some (JObj bash_entry)"
    and "flines f = Some (earlier @ [l])" and "py_strip l = bash_line"
    and "mtime f = Some (now - 60)"
    and "py_endswith (fname f) ''.jsonl''" and "\<not> py_startswith (fname f) ''agent-''"
  shows "\<exists>s. scan_active_sessions B
               (RootEntries [\<lparr>dname = ''-Users-alice-proj'', is_dir = True, dfiles = [f]\<rparr>])
               ts now
             = Inr \<lparr>timestamp = ts, active_sessions = [s], waiting_count = 1,
                    processing_count = 0, projects_with_waiting = [''proj'']\<rparr>
           \<and> project_name s = ''proj''
           \<and> project_path s = ''/Users/alice/proj''
           \<and> state s = ''waiting_for_approval''
           \<and> (\<exists>p. pending_approval s = Some p \<and> ptype p = ''tool_use''
                  \<and> tool_name p = JStr ''Bash'' \<and> description p = JStr ''ls -la'')"
proof -
  have ne: "earlier @ [l] \<noteq> []" by simp
  have ld: "loads B (py_strip (last (earlier @ [l]))) = Some (JObj bash_entry)"
    using assms(1,3) by simp
  have msg: "entry_message bash_entry =
               JObj [(''content'', JArr
                 [JObj [(''type'', JStr ''tool_use''), (''name'', JStr ''Bash''),
                        (''input'', JObj [(''command'', JStr ''ls -la'')])]])]"
    by (simp add: entry_message_def dict_get_default_def bash_entry_def)
  from parse_session_SomeI [OF assms(2) ne ld determine_state_bash msg,
      of "''proj''" "''/Users/alice/proj''"]
  obtain s where s: "parse_session B f ''proj'' ''/Users/alice/proj'' 60 = Some s"
    "state s = ''waiting_for_approval''"
    "pending_approval s = Some \<lparr>ptype = ''tool_use'', tool_name = JStr ''Bash'',
                                 description = JStr ''ls -la''\<rparr>"
    "project_name s = ''proj''" "project_path s = ''/Users/alice/proj''"
    by auto
  have sf: "scan_file B now ''proj'' ''/Users/alice/proj'' f (empty_report ts) =
              Inr (add_session s ''proj'' (empty_report ts))"
    using assms(4,6) s(1) by (simp add: scan_file_def ACTIVE_THRESHOLD_SECONDS_def Let_def)
  have ad: "add_session s ''proj'' (empty_report ts) =
              \<lparr>timestamp = ts, active_sessions = [s], waiting_count = 1,
               processing_count = 0, projects_with_waiting = [''proj'']\<rparr>"
    using s(2) by (simp add: add_session_def empty_report_def Let_def)
  have "scan_active_sessions B
          (RootEntries [\<lparr>dname = ''-Users-alice-proj'', is_dir = True, dfiles = [f]\<rparr>]) ts now
        = Inr \<lparr>timestamp = ts, active_sessions = [s], waiting_count = 1,
               processing_count = 0, projects_with_waiting = [''proj'']\<rparr>"
    using assms(5) sf ad
    by (simp add: scan_active_sessions_def scan_dir_def derive_alice_proj glob_jsonl_def)
  then show ?thesis using s by auto
qed

theorem bash_scenario_witness:
  "loads demo_builtins bash_line = Some (JObj bash_entry)
   \<and> py_strip (bash_line @ [CHR 0x0A]) = bash_line
   \<and> (\<exists>s. scan_active_sessions demo_builtins
              (RootEntries [\<lparr>dname = ''-Users-alice-proj'', is_dir = True,
                             dfiles = [\<lparr>fname = ''s1.jsonl'', mtime = Some (1000 - 60),
                                        flines = Some ([] @ [bash_line @ [CHR 0x0A]])\<rparr>]\<rparr>])
              ''2024-05-01T12:00:00+00:00'' 1000
            = Inr \<lparr>timestamp = ''2024-05-01T12:00:00+00:00'', active_sessions = [s],
                   waiting_count = 1, processing_count = 0,
                   projects_with_waiting = [''proj'']\<rparr>
          \<and> state s = ''waiting_for_approval'')"
proof -
  let ?f = "\<lparr>fname = ''s1.jsonl'', mtime = Some (1000 - 60),
             flines = Some ([] @ [bash_line @ [CHR 0x0A]])\<rparr>"
  have h1: "loads demo_builtins bash_line = Some (JObj bash_entry)"
    by (simp add: demo_builtins_def demo_loads_line)
  have h2: "flines ?f = Some ([] @ [bash_line @ [CHR 0x0A]])" by simp
  have h3: "py_strip (bash_line @ [CHR 0x0A]) = bash_line" by (rule strip_demo_line)
  have h4: "mtime ?f = Some (1000 - 60)" by simp
  have h5: "py_endswith (fname ?f) ''.jsonl''" by (simp add: py_endswith_def)
  have h6: "\<not> py_startswith (fname ?f) ''agent-''" by (simp add: py_startswith_def)
  from bash_scenario [OF h1 h2 h3 h4 h5 h6, of "''2024-05-01T12:00:00+00:00''"]
  show ?thesis using h1 h3 by blast
qed

text \<open>
  Claim C2. A log file whose age (the time of the scan minus its modification time) is
  above 600 seconds leaves the result as it is, whatever the file holds: no snapshot is
  appended and no count changes. The scan of a root returns what it returns for the root
  without the file.
\<close>

theorem old_file_excluded:
  assumes "mtime f = Some m" and "now - m > 600"
  shows "(\<forall>pn pp r. scan_file B now pn pp f r = Inr r)
       \<and> scan_active_sessions B (RootEntries (ds1 @ d\<lparr>dfiles := xs @ f # ys\<rparr> # ds2)) ts now =
         scan_active_sessions B (RootEntries (ds1 @ d\<lparr>dfiles := xs @ ys\<rparr> # ds2)) ts now"
proof -
  have a: "scan_file B now pn pp f r = Inr r" for pn pp r
    using assms by (rule scan_file_old)
  have "scan_active_sessions B (RootEntries (ds1 @ d\<lparr>dfiles := xs @ f # ys\<rparr> # ds2)) ts now =
        scan_active_sessions B (RootEntries (ds1 @ d\<lparr>dfiles := xs @ ys\<rparr> # ds2)) ts now"
    using a by (rule scan_drop)
  then show ?thesis using a by blast
qed

theorem old_file_excluded_witness:
  "(1000::real) - 100 > 600
   \<and> scan_active_sessions demo_builtins
       (RootEntries ([] @ (project_dir [])\<lparr>dfiles := [session_file ''a.jsonl'' 940 user_a_line]
                                           @ session_file ''old.jsonl'' 100 bash_line # []\<rparr> # []))
       ''T'' 1000
     = scan_active_sessions demo_builtins
       (RootEntries ([] @ (project_dir [])\<lparr>dfiles := [session_file ''a.jsonl'' 940 user_a_line]
                                           @ []\<rparr> # []))
       ''T'' 1000
   \<and> map_sum id (\<lambda>r. map last_activity (active_sessions r))
       (scan_active_sessions demo_builtins
          (RootEntries ([] @ (project_dir [])\<lparr>dfiles := [session_file ''a.jsonl'' 940 user_a_line]
                                           @ session_file ''old.jsonl'' 100 bash_line # []\<rparr> # []))
          ''T'' 1000)
     = Inr [JStr ''2024-05-01T10:00:00Z'']"
proof -
  have h1: "mtime (session_file ''old.jsonl'' 100 bash_line) = Some 100"
    by (simp add: session_file_def)
  have h2: "(1000::real) - 100 > 600" by simp
  note t = old_file_excluded [OF h1 h2, where B = demo_builtins and ?ds1.0 = "[]"
      and d = "project_dir []" and xs = "[session_file ''a.jsonl'' 940 user_a_line]"
      and ys = "[]" and ?ds2.0 = "[]" and ts = "''T''"]
  have "(project_dir [])\<lparr>dfiles := [session_file ''a.jsonl'' 940 user_a_line] @ []\<rparr>
        = project_dir [session_file ''a.jsonl'' 940 user_a_line]"
    by (simp add: project_dir_def)
  then have "map_sum id (\<lambda>r. map last_activity (active_sessions r))
       (scan_active_sessions demo_builtins
          (RootEntries ([] @ (project_dir [])\<lparr>dfiles := [session_file ''a.jsonl'' 940 user_a_line]
                                           @ []\<rparr> # []))
          ''T'' 1000)
     = Inr [JStr ''2024-05-01T10:00:00Z'']"
    using scan_single_a [of "''T''"] by simp
  then show ?thesis using t h2 by simp
qed

text \<open>
  Claim C6. In a report the scan returns, if every \<^verbatim>\<open>last_activity\<close> is a string or
  falsy (absent), the snapshots are in descending lexicographic order of that string,
  an absent one counting as the empty string; a snapshot with an absent
  \<^verbatim>\<open>last_activity\<close> stands after every snapshot with a non-empty one.
\<close>

theorem sessions_sorted_descending:
  assumes "scan_active_sessions B rootd ts now = Inr r"
    and "\<forall>x\<in>set (active_sessions r). activity_absent_or_str x"
  shows "sorted_wrt (\<lambda>a b. activity_string b \<le> activity_string a) (active_sessions r)
       \<and> (\<forall>i j. i < length (active_sessions r) \<and> j < length (active_sessions r)
              \<and> last_activity (active_sessions r ! i) = JNull
              \<and> activity_string (active_sessions r ! j) \<noteq> []
            \<longrightarrow> j < i)"
proof -
  obtain xs where xs: "sort_sessions xs = Inr (active_sessions r)"
    using scan_sorted_from [OF assms(1)] by blast
  have "\<forall>x\<in>set xs. activity_absent_or_str x"
    using sort_sessions_set [OF xs] assms(2) by simp
  from sort_sessions_sorted [OF xs this]
  have s: "sorted_wrt (\<lambda>a b. activity_string b \<le> activity_string a) (active_sessions r)" .
  have "j < i"
    if "i < length (active_sessions r)" "j < length (active_sessions r)"
      "last_activity (active_sessions r ! i) = JNull"
      "activity_string (active_sessions r ! j) \<noteq> []" for i j
  proof (rule ccontr)
    assume "\<not> j < i"
    moreover have "i \<noteq> j" using that(3,4) by (auto simp: activity_string_def)
    ultimately have "i < j" by simp
    then have "activity_string (active_sessions r ! j) \<le> activity_string (active_sessions r ! i)"
      using s that(2) by (simp add: sorted_wrt_iff_nth_less)
    moreover have "activity_string (active_sessions r ! i) = []"
      using that(3) by (simp add: activity_string_def)
    ultimately show False using that(4) by simp
  qed
  then show ?thesis using s by blast
qed

theorem sessions_sorted_descending_witness:
  "\<exists>r. scan_active_sessions demo_builtins three_sessions_root ''T'' 1000 = Inr r
       \<and> map last_activity (active_sessions r)
           = [JStr ''2024-05-01T11:00:00Z'', JStr ''2024-05-01T10:00:00Z'', JNull]
       \<and> sorted_wrt (\<lambda>a b. activity_string b \<le> activity_string a) (active_sessions r)"
proof -
  obtain r where r: "scan_active_sessions demo_builtins three_sessions_root ''T'' 1000 = Inr r"
    and m: "map last_activity (active_sessions r)
           = [JStr ''2024-05-01T11:00:00Z'', JStr ''2024-05-01T10:00:00Z'', JNull]"
    using scan_three_sessions [of "''T''"]
    by (cases "scan_active_sessions demo_builtins three_sessions_root ''T'' 1000") auto
  have "\<forall>v\<in>set (map last_activity (active_sessions r)). is_str v \<or> \<not> truthy v"
    unfolding m by (simp add: is_str_def)
  then have "\<forall>x\<in>set (active_sessions r). activity_absent_or_str x"
    by (simp add: activity_absent_or_str_def)
  from sessions_sorted_descending [OF r this]
  have "sorted_wrt (\<lambda>a b. activity_string b \<le> activity_string a) (active_sessions r)"
    by simp
  then show ?thesis using r m by (intro exI [of _ r]) simp
qed

text \<open>
  What holds of the error handling: a missing root gives the empty report, and a file
  that cannot be read, has no line or whose last line is not valid JSON is skipped; the
  scan returns what it returns without the file.
\<close>

lemma scan_missing_root:
  "scan_active_sessions B RootMissing ts now = Inr (empty_report ts)"
  by (simp add: scan_active_sessions_def)

lemma parse_session_unusable:
  assumes "flines f = None \<or> flines f = Some []
           \<or> (\<exists>lines. flines f = Some lines \<and> loads B (py_strip (last lines)) = None)"
  shows "parse_session B f pn pp age = None"
  using assms by (auto simp: parse_session_def)

lemma scan_file_unusable:
  assumes "mtime f = Some m"
    and "flines f = None \<or> flines f = Some []
         \<or> (\<exists>lines. flines f = Some lines \<and> loads B (py_strip (last lines)) = None)"
  shows "scan_file B now pn pp f r = Inr r"
  using assms(1) parse_session_unusable [OF assms(2)]
  by (simp add: scan_file_def Let_def)

lemma scan_drop_unusable:
  assumes "mtime f = Some m"
    and "flines f = None \<or> flines f = Some []
         \<or> (\<exists>lines. flines f = Some lines \<and> loads B (py_strip (last lines)) = None)"
  shows "scan_active_sessions B (RootEntries (ds1 @ d\<lparr>dfiles := xs @ f # ys\<rparr> # ds2)) ts now =
         scan_active_sessions B (RootEntries (ds1 @ d\<lparr>dfiles := xs @ ys\<rparr> # ds2)) ts now"
proof -
  have "scan_file B now pn pp f r = Inr r" for pn pp r
    using assms by (rule scan_file_unusable)
  then show ?thesis by (rule scan_drop)
qed

text \<open>
  Claim C8, where the code differs. Two session files, both modified within the last
  600 seconds: the last line of one has the string time stamp
  \<open>2024-05-01T10:00:00Z\<close>, the last line of the other the number 5. Each alone is
  scanned to a report of one snapshot. Together the comparison of the two sort keys
  raises \<^verbatim>\<open>TypeError\<close> (line 428), which nothing in \<^verbatim>\<open>scan_active_sessions\<close>
  catches: the scan returns no report.
\<close>

theorem scan_raises_on_mixed_timestamps:
  "scan_active_sessions demo_builtins
     (RootEntries [project_dir [session_file ''a.jsonl'' 940 user_a_line,
                                session_file ''i.jsonl'' 950 user_num_line]])
     ''T'' 1000
   = Inl TypeError
   \<and> map_sum id (\<lambda>r. map last_activity (active_sessions r))
       (scan_active_sessions demo_builtins
          (RootEntries [project_dir [session_file ''a.jsonl'' 940 user_a_line]]) ''T'' 1000)
     = Inr [JStr ''2024-05-01T10:00:00Z'']
   \<and> map_sum id (\<lambda>r. map last_activity (active_sessions r))
       (scan_active_sessions demo_builtins
          (RootEntries [project_dir [session_file ''i.jsonl'' 950 user_num_line]]) ''T'' 1000)
     = Inr [JInt 5]"
  using scan_mixed [of "''T''"] scan_single_a [of "''T''"] scan_single_num [of "''T''"]
  by (simp add: mixed_root_def)

text \<open>
  Claim C9. Two scans of the same file system state with the same value of
  \<^verbatim>\<open>time.time()\<close> either raise the same exception or return reports that agree on
  every field but \<^verbatim>\<open>timestamp\<close>, which is the time stamp string of each scan.
\<close>

theorem scan_idempotent:
  "(case (scan_active_sessions B rootd ts1 now, scan_active_sessions B rootd ts2 now) of
      (Inr r1, Inr r2) \<Rightarrow>
         active_sessions r1 = active_sessions r2
         \<and> waiting_count r1 = waiting_count r2
         \<and> processing_count r1 = processing_count r2
         \<and> projects_with_waiting r1 = projects_with_waiting r2
         \<and> timestamp r1 = ts1 \<and> timestamp r2 = ts2
    | (Inl e1, Inl e2) \<Rightarrow> e1 = e2
    | _ \<Rightarrow> False)"
proof (cases "scan_active_sessions B rootd [] now")
  case (Inl e)
  then show ?thesis
    using scan_timestamp [of B rootd ts1 now] scan_timestamp [of B rootd ts2 now] by simp
next
  case (Inr r)
  then show ?thesis
    using scan_timestamp [of B rootd ts1 now] scan_timestamp [of B rootd ts2 now] by simp
qed

theorem scan_idempotent_witness:
  "(case (scan_active_sessions demo_builtins three_sessions_root ''T1'' 1000,
          scan_active_sessions demo_builtins three_sessions_root ''T2'' 1000) of
      (Inr r1, Inr r2) \<Rightarrow>
         active_sessions r1 = active_sessions r2
         \<and> waiting_count r1 = waiting_count r2
         \<and> processing_count r1 = processing_count r2
         \<and> projects_with_waiting r1 = projects_with_waiting r2
         \<and> timestamp r1 = ''T1'' \<and> timestamp r2 = ''T2''
    | (Inl e1, Inl e2) \<Rightarrow> e1 = e2
    | _ \<Rightarrow> False)
   \<and> map_sum id (\<lambda>r. length (active_sessions r))
       (scan_active_sessions demo_builtins three_sessions_root ''T1'' 1000) = Inr 3"
proof -
  have "map_sum id (\<lambda>r. length (map last_activity (active_sessions r)))
       (scan_active_sessions demo_builtins three_sessions_root ''T1'' 1000) = Inr 3"
    using scan_three_sessions [of "''T1''"]
    by (cases "scan_active_sessions demo_builtins three_sessions_root ''T1'' 1000") auto
  then show ?thesis
    using scan_idempotent [where B = demo_builtins and rootd = three_sessions_root
        and ?ts1.0 = "''T1''" and now = 1000 and ?ts2.0 = "''T2''"]
    by simp
qed

end
